theory Spec2Isabelle
  imports Main "HOL-Library.AList" "HOL-Library.Sublist"
begin

section \<open>JavaScript values and plain objects\<close>

text \<open>
  The values that flow through the bridge are opaque to it: they are compared, tested for
  truthiness and handed to getters, setters and the device. Numbers are carried as
  integers (no arithmetic is done on them by the modelled code, and \<open>NaN\<close> is left
  out); \<open>Sym\<close> stands for a JavaScript Symbol such as the mapper's \<open>NO_VALUE\<close>
  sentinel. On these values \<open>===\<close> is equality.
\<close>

datatype jsval = Undefined | Null | Bool bool | Num int | Str string | Sym string

fun truthy :: "jsval \<Rightarrow> bool" where
  "truthy Undefined = False"
| "truthy Null = False"
| "truthy (Bool b) = b"
| "truthy (Num n) = (n \<noteq> 0)"
| "truthy (Str s) = (s \<noteq> [])"
| "truthy (Sym s) = True"

text \<open>
  A plain object (\<open>{}\<close>) is the list of its own string-keyed properties in creation
  order, with distinct keys. Two things the language adds are written out:
  \<^item> a plain object inherits the properties of \<open>Object.prototype\<close>, so the operator
    \<open>in\<close> and a property read also find these twelve names;
  \<^item> own keys are enumerated (\<open>Object.keys\<close>, \<open>Object.entries\<close>, \<open>for .. of\<close>) with
    the array indices first, in ascending numeric order, then the other keys in creation
    order.
\<close>

type_synonym 'v jsobj = "(string \<times> 'v) list"

definition object_prototype_keys :: "string list" where
  "object_prototype_keys =
     [''constructor'', ''__defineGetter__'', ''__defineSetter__'', ''hasOwnProperty'',
      ''__lookupGetter__'', ''__lookupSetter__'', ''isPrototypeOf'',
      ''propertyIsEnumerable'', ''toString'', ''valueOf'', ''__proto__'',
      ''toLocaleString'']"

definition is_digit :: "char \<Rightarrow> bool" where
  "is_digit c = (c \<in> set ''0123456789'')"

definition digits_val :: "string \<Rightarrow> nat" where
  "digits_val s = foldl (\<lambda>n c. 10 * n + (of_char c - 48)) 0 s"

definition is_array_index :: "string \<Rightarrow> bool" where
  "is_array_index s =
     (s \<noteq> [] \<and> list_all is_digit s \<and> (s = ''0'' \<or> hd s \<noteq> CHR ''0'')
      \<and> digits_val s < 4294967295)"

definition object_entries :: "'v jsobj \<Rightarrow> (string \<times> 'v) list" where
  "object_entries obj =
     sort_key (\<lambda>p. digits_val (fst p)) (filter (\<lambda>p. is_array_index (fst p)) obj)
     @ filter (\<lambda>p. \<not> is_array_index (fst p)) obj"

definition object_keys :: "'v jsobj \<Rightarrow> string list" where
  "object_keys obj = map fst (object_entries obj)"

definition has_in :: "string \<Rightarrow> 'v jsobj \<Rightarrow> bool" where
  \<comment> \<open>\<open>k in obj\<close>: an own property, or one inherited from \<open>Object.prototype\<close>\<close>
  "has_in k obj = (k \<in> fst ` set obj \<or> k \<in> set object_prototype_keys)"

definition obj_set :: "string \<Rightarrow> 'v \<Rightarrow> 'v jsobj \<Rightarrow> 'v jsobj" where
  \<comment> \<open>\<open>obj[k] = v\<close>: assigning to \<open>__proto__\<close> runs the inherited setter and creates no
      own property\<close>
  "obj_set k v obj = (if k = ''__proto__'' then obj else AList.update k v obj)"

section \<open>Exposure ledger: class StorageBackedMap\<close>

text \<open>
  A \<open>Map\<close> keeps its entries in insertion order; \<open>Map.set\<close> on a present key replaces
  the value in place and on an absent key appends, which is \<open>AList.update\<close>. The private
  field \<open>#dirty\<close> is \<open>sbm_dirty\<close>. The sink \<open>#onSave\<close> is external: every call is
  recorded, with the snapshot it was given, in \<open>sbm_saved\<close> (oldest first).
\<close>

record ledger =
  sbm_entries :: "(string \<times> jsval) list"
  sbm_dirty :: bool
  sbm_saved :: "(string \<times> jsval) list list"

definition sbm_get :: "ledger \<Rightarrow> string \<Rightarrow> jsval" where
  "sbm_get s k = (case map_of (sbm_entries s) k of None \<Rightarrow> Undefined | Some v \<Rightarrow> v)"

definition sbm_has :: "ledger \<Rightarrow> string \<Rightarrow> bool" where
  "sbm_has s k = (k \<in> fst ` set (sbm_entries s))"

definition sbm_keys :: "ledger \<Rightarrow> string list" where
  "sbm_keys s = map fst (sbm_entries s)"

definition sbm_set :: "string \<Rightarrow> jsval \<Rightarrow> ledger \<Rightarrow> ledger" where
  "sbm_set k v s =
     s\<lparr>sbm_dirty := (sbm_dirty s \<or> sbm_get s k \<noteq> v),
       sbm_entries := AList.update k v (sbm_entries s)\<rparr>"

definition sbm_delete :: "string \<Rightarrow> ledger \<Rightarrow> ledger" where
  "sbm_delete k s =
     s\<lparr>sbm_dirty := (sbm_dirty s \<or> sbm_has s k),
       sbm_entries := AList.delete k (sbm_entries s)\<rparr>"

definition sbm_save :: "ledger \<Rightarrow> ledger" where
  "sbm_save s =
     (if \<not> sbm_dirty s then s
      else s\<lparr>sbm_saved := sbm_saved s @ [sbm_entries s], sbm_dirty := False\<rparr>)"

definition sbm_setAll :: "jsval \<Rightarrow> ledger \<Rightarrow> ledger" where
  "sbm_setAll v s = sbm_save (fold (\<lambda>k. sbm_set k v) (sbm_keys s) s)"

definition sbm_isDirty :: "ledger \<Rightarrow> bool" where
  "sbm_isDirty s = sbm_dirty s"

definition new_StorageBackedMap :: "jsval jsobj option \<Rightarrow> ledger" where
  \<comment> \<open>the constructor: \<open>data || {}\<close>, every entry through \<open>set\<close>, then clean\<close>
  "new_StorageBackedMap data =
     (fold (\<lambda>(k, v). sbm_set k v)
           (object_entries (case data of None \<Rightarrow> [] | Some d \<Rightarrow> d))
           \<lparr>sbm_entries = [], sbm_dirty = False, sbm_saved = []\<rparr>)
     \<lparr>sbm_dirty := False\<rparr>"

section \<open>Devices and errors\<close>

text \<open>
  A device of the source platform, as far as the bridge reads it. \<open>dev_capabilitiesObj\<close>
  is \<open>device.capabilitiesObj\<close> (absent on a device that is not usable yet), keeping for
  every capability the \<open>value\<close> field of its entry (\<open>Undefined\<close> when the entry has
  none). \<open>dev_ui_components\<close> is \<open>device.ui?.components\<close>, each component given by its
  \<open>capabilities\<close> array; \<open>None\<close> when \<open>ui\<close> or \<open>components\<close> is missing. An absent
  \<open>name\<close> is the empty string.
\<close>

record device =
  dev_id :: string
  dev_name :: string
  dev_class :: string
  dev_driverId :: "string option"
  dev_zoneName :: "string option"
  dev_ready :: bool
  dev_capabilities :: "string list"
  dev_capabilitiesObj :: "jsval jsobj option"
  dev_ui_components :: "string list list option"

datatype error = TypeError string | Error string

section \<open>Capability grouper: groupCapabilities and flattenGroups\<close>

fun split_on :: "char \<Rightarrow> string \<Rightarrow> string list" where
  \<comment> \<open>\<open>String.prototype.split\<close> with a one-character separator: every occurrence splits\<close>
  "split_on sep [] = [ [] ]"
| "split_on sep (c # cs) =
     (if c = sep then [] # split_on sep cs
      else (case split_on sep cs of [] \<Rightarrow> [ [c] ] | w # ws \<Rightarrow> (c # w) # ws))"

definition split_capability :: "string \<Rightarrow> string \<times> string" where
  \<comment> \<open>\<open>const [ capability, group = '' ] = cap.split('.')\<close>: the first two pieces\<close>
  "split_capability cap =
     (case split_on CHR ''.'' cap of
        [] \<Rightarrow> ([], [])
      | [capability] \<Rightarrow> (capability, [])
      | capability # grp # _ \<Rightarrow> (capability, grp))"

definition visible_capabilities :: "device \<Rightarrow> string list" where
  \<comment> \<open>\<open>device.ui?.components?.map(c => c.capabilities).flat() || []\<close>\<close>
  "visible_capabilities dev =
     (case dev_ui_components dev of None \<Rightarrow> [] | Some comps \<Rightarrow> concat comps)"

definition group_step :: "string list jsobj \<Rightarrow> string \<Rightarrow> error + string list jsobj" where
  \<comment> \<open>the reducer of \<open>groupCapabilities\<close>. \<open>acc\<close> starts as \<open>{}\<close>: for a group named like
      a property of \<open>Object.prototype\<close>, \<open>acc[group]\<close> is that inherited (truthy) value,
      no array is stored, and \<open>.push\<close> on it is a TypeError\<close>
  "group_step acc cap =
     (let (capability, grp) = split_capability cap in
      case map_of acc grp of
        Some caps \<Rightarrow> Inr (obj_set grp (caps @ [capability]) acc)
      | None \<Rightarrow>
          if grp \<in> set object_prototype_keys
          then Inl (TypeError ''acc[group].push is not a function'')
          else Inr (obj_set grp [capability] acc))"

fun reduce_err :: "('b \<Rightarrow> 'a \<Rightarrow> error + 'b) \<Rightarrow> 'a list \<Rightarrow> 'b \<Rightarrow> error + 'b" where
  \<comment> \<open>\<open>Array.prototype.reduce\<close> with a callback that may throw\<close>
  "reduce_err f [] acc = Inr acc"
| "reduce_err f (x # xs) acc =
     (case f acc x of Inl e \<Rightarrow> Inl e | Inr acc' \<Rightarrow> reduce_err f xs acc')"

definition groupCapabilities :: "device \<Rightarrow> error + string list jsobj" where
  "groupCapabilities dev = reduce_err group_step (visible_capabilities dev) []"

definition own_caps :: "string list jsobj \<Rightarrow> string \<Rightarrow> string list" where
  \<comment> \<open>\<open>groups[group]\<close> for an own key \<open>group\<close>\<close>
  "own_caps groups grp = (case map_of groups grp of None \<Rightarrow> [] | Some caps \<Rightarrow> caps)"

definition flatten_step ::
  "string list jsobj \<Rightarrow> string list jsobj \<times> bool jsobj \<Rightarrow> string
     \<Rightarrow> string list jsobj \<times> bool jsobj" where
  \<comment> \<open>the reducer of \<open>flattenGroups\<close>; \<open>acc = { groups, seen }\<close>. The filter runs over the
      whole group before the map marks anything as seen\<close>
  "flatten_step groups acc grp =
     (let kept = filter (\<lambda>cap. \<not> has_in cap (snd acc)) (own_caps groups grp)
      in (obj_set grp kept (fst acc), fold (\<lambda>cap. obj_set cap True) kept (snd acc)))"

definition flattenGroups :: "string list jsobj \<Rightarrow> string list jsobj" where
  \<comment> \<open>\<open>Array.prototype.sort\<close> is stable, as \<open>sort_key\<close> is\<close>
  "flattenGroups groups =
     fst (foldl (flatten_step groups) ([], []) (sort_key length (object_keys groups)))"

definition grouped :: "string list \<Rightarrow> string \<Rightarrow> string list" where
  \<comment> \<open>the base capabilities of the identifiers whose group key is \<open>g\<close>, in order\<close>
  "grouped caps g =
     map (\<lambda>c. fst (split_capability c)) (filter (\<lambda>c. snd (split_capability c) = g) caps)"

section \<open>Capability maps\<close>

text \<open>
  A getter or setter of the map catalogue receives the value and a context object
  (\<open>{ device, service, capability, characteristic }\<close>; the service is named by its
  position in the accessory) and may throw. A characteristic binding keeps
  \<open>[ characteristicMap.characteristics ].flat()\<close> as the list of class names, and
  \<open>[ characteristicMap.get ].flat()\<close>, \<open>[ characteristicMap.set ].flat()\<close> as lists of
  functions (empty when the field is absent, so that indexing yields \<open>None\<close> where the
  source yields \<open>undefined\<close>).
\<close>

record ctx =
  ctx_device :: device
  ctx_service :: nat
  ctx_capability :: "string option"
  ctx_characteristic :: string

type_synonym transform = "jsval \<Rightarrow> ctx \<Rightarrow> error + jsval"

record binding =
  b_characteristics :: "string list"
  b_get :: "transform list"
  b_set :: "transform list"
  b_debounce :: jsval

text \<open>
  \<open>m_required\<close>, \<open>m_optional\<close> and \<open>m_triggers\<close> are plain objects from capability name
  to \<open>[ bindings ].flat()\<close>; \<open>None\<close> when the map has no such field. The two hooks are
  external callbacks: the map records whether they are present.
\<close>

record capmap =
  m_name :: string
  m_service :: string
  m_group :: jsval
  m_category :: "nat option"
  m_adaptiveLighting :: bool
  m_required :: "binding list jsobj option"
  m_optional :: "binding list jsobj option"
  m_triggers :: "binding list jsobj option"
  m_onService :: bool
  m_onUpdate :: bool

datatype 'v lookup = Absent | Own 'v | Inherited

definition obj_get :: "'v jsobj option \<Rightarrow> string \<Rightarrow> 'v lookup" where
  \<comment> \<open>\<open>obj?.[k]\<close> on a plain object: own, inherited from \<open>Object.prototype\<close>, or
      \<open>undefined\<close>\<close>
  "obj_get obj k =
     (case obj of
        None \<Rightarrow> Absent
      | Some own \<Rightarrow>
          (case map_of own k of
             Some v \<Rightarrow> Own v
           | None \<Rightarrow> if k \<in> set object_prototype_keys then Inherited else Absent))"

fun nth_opt :: "'a list \<Rightarrow> nat \<Rightarrow> 'a option" where
  "nth_opt [] n = None"
| "nth_opt (x # xs) 0 = Some x"
| "nth_opt (x # xs) (Suc n) = nth_opt xs n"

section \<open>Debounced functions\<close>

text \<open>
  Modelled from the spec: the \<open>debounce\<close> package is not part of the repository. The
  wrapper keeps the wrapped function, the interval and the edge it was built with;
  \<open>d_pending\<close> is the argument of a call that waits for its timer. In immediate mode a
  call runs the function at once; otherwise the call (re)arms the timer with the latest
  argument, and the function runs with it when the timer fires.
\<close>

record 'f debounced =
  d_fn :: 'f
  d_wait :: jsval
  d_immediate :: bool
  d_pending :: "jsval option"

definition debounce :: "'f \<Rightarrow> jsval \<Rightarrow> bool \<Rightarrow> 'f debounced" where
  "debounce f wait immediate =
     \<lparr>d_fn = f, d_wait = wait, d_immediate = immediate, d_pending = None\<rparr>"

definition debounced_call :: "'f debounced \<Rightarrow> jsval \<Rightarrow> jsval option \<times> 'f debounced" where
  \<comment> \<open>the argument to run the function with now, if any, and the wrapper afterwards\<close>
  "debounced_call d v =
     (if d_immediate d then (Some v, d) else (None, d\<lparr>d_pending := Some v\<rparr>))"

definition debounced_timer :: "'f debounced \<Rightarrow> jsval option \<times> 'f debounced" where
  "debounced_timer d = (d_pending d, d\<lparr>d_pending := None\<rparr>)"

section \<open>The target accessory\<close>

text \<open>
  Modelled from the spec: the accessory library is not part of the repository. An
  accessory is a list of services, a service a list of characteristics, a characteristic
  holds a value, at most one read handler, at most one write handler and a number of
  \<open>change\<close> listeners. The handlers are the closures the binder builds, kept as the
  variables they capture.
\<close>

record get_handler =
  gh_capability :: string
  gh_getter :: transform
  gh_service :: nat
  gh_klass :: string

record set_handler =
  sh_capability :: string
  sh_setter :: transform
  sh_service :: nat
  sh_klass :: string

record update_callback =
  cb_capability :: string
  cb_getter :: "transform option"
  cb_service :: nat
  cb_characteristics :: "string list"

record characteristic =
  c_klass :: string
  c_value :: jsval
  c_onGet :: "get_handler option"
  c_onSet :: "set_handler debounced option"
  c_change :: nat

record service =
  s_type :: string
  s_displayName :: string
  s_subtype :: string
  s_characteristics :: "characteristic list"

record accessory =
  a_displayName :: string
  a_id :: string
  a_category :: "nat option"
  a_services :: "service list"
  a_controllers :: "nat list"

record listener =
  l_capability :: string
  l_callback :: "update_callback debounced"
  l_destroyed :: bool

datatype log_entry =
    LogIdentify
  | LogMap string
  | LogGroup string "string list"
  | LogNewService string
  | LogExistingService string
  | LogBinding string bool string jsval
  | LogCapabilityUpdate string jsval
  | LogAdaptiveEnabled
  | LogAdaptiveSkipped
  | LogAdaptiveError
  | HookOnService nat

definition new_characteristic :: "string \<Rightarrow> characteristic" where
  "new_characteristic klass =
     \<lparr>c_klass = klass, c_value = Undefined, c_onGet = None, c_onSet = None, c_change = 0\<rparr>"

definition getCharacteristic :: "string \<Rightarrow> service \<Rightarrow> service" where
  \<comment> \<open>\<open>service.getCharacteristic(klass)\<close>: the characteristic of that class, added if the
      service has none\<close>
  "getCharacteristic klass s =
     (if klass \<in> c_klass ` set (s_characteristics s) then s
      else s\<lparr>s_characteristics := s_characteristics s @ [new_characteristic klass]\<rparr>)"

definition on_characteristic ::
  "string \<Rightarrow> (characteristic \<Rightarrow> characteristic) \<Rightarrow> service \<Rightarrow> service" where
  "on_characteristic klass f s =
     s\<lparr>s_characteristics :=
         map (\<lambda>c. if c_klass c = klass then f c else c) (s_characteristics s)\<rparr>"

definition on_service :: "nat \<Rightarrow> (service \<Rightarrow> service) \<Rightarrow> accessory \<Rightarrow> accessory" where
  "on_service i f a =
     (if i < length (a_services a)
      then a\<lparr>a_services := (a_services a)[i := f (a_services a ! i)]\<rparr> else a)"

definition find_characteristic :: "nat \<Rightarrow> string \<Rightarrow> accessory \<Rightarrow> characteristic option" where
  "find_characteristic i klass a =
     (if i < length (a_services a)
      then find (\<lambda>c. c_klass c = klass) (s_characteristics (a_services a ! i)) else None)"

fun find_index_of :: "('a \<Rightarrow> bool) \<Rightarrow> 'a list \<Rightarrow> nat option" where
  "find_index_of P [] = None"
| "find_index_of P (x # xs) =
     (if P x then Some 0 else map_option Suc (find_index_of P xs))"

definition getService :: "string \<Rightarrow> accessory \<Rightarrow> nat option" where
  \<comment> \<open>\<open>accessory.getService(type)\<close>: the first service of that type\<close>
  "getService type a = find_index_of (\<lambda>s. s_type s = type) (a_services a)"

definition addService ::
  "string \<Rightarrow> string \<Rightarrow> string \<Rightarrow> accessory \<Rightarrow> error + nat \<times> accessory" where
  \<comment> \<open>\<open>accessory.addService(type, name, subtype)\<close>: the library refuses a second service
      of the same type and subtype\<close>
  "addService type name subtype a =
     (if \<exists>s\<in>set (a_services a). s_type s = type \<and> s_subtype s = subtype
      then Inl (Error ''Cannot add a Service with the same UUID and subtype as another Service in this Accessory.'')
      else Inr (length (a_services a),
                a\<lparr>a_services := a_services a
                     @ [\<lparr>s_type = type, s_displayName = name, s_subtype = subtype,
                         s_characteristics = []\<rparr>]\<rparr>))"

section \<open>Mapped-device handle: class MappedDevice\<close>

text \<open>
  The private fields of the class. \<open>h_NO_VALUE\<close> is \<open>mapper.Constants.NO_VALUE\<close>.
  \<open>h_log\<close> collects the calls of \<open>this.log\<close> (and of the map's service hook).
  \<open>h_requests\<close> collects the calls of \<open>device.setCapabilityValue\<close>, each with the
  answer of the device: \<open>True\<close> when the promise resolved, \<open>False\<close> when it rejected.
\<close>

record mapped_device =
  h_device :: device
  h_class :: string
  h_capabilities :: "string list"
  h_category :: "nat option"
  h_maps :: "capmap list"
  h_accessory :: "accessory option"
  h_listeners :: "listener list"
  h_log :: "log_entry list"
  h_requests :: "(string \<times> jsval \<times> bool) list"
  h_NO_VALUE :: jsval

text \<open>
  What the handle is given from outside: \<open>Utils.upperFirst\<close> of the mapper,
  \<open>characteristic.validateUserInput\<close> of the accessory library (by class name), and
  whether the device accepts a requested capability value.
\<close>

record env =
  env_upperFirst :: "string \<Rightarrow> string"
  env_validate :: "string \<Rightarrow> jsval \<Rightarrow> jsval"
  env_accepts :: "string \<Rightarrow> jsval \<Rightarrow> bool"

definition Categories_OTHER :: nat where
  "Categories_OTHER = 1"

definition new_MappedDevice :: "env \<Rightarrow> jsval \<Rightarrow> device \<Rightarrow> capmap \<Rightarrow> mapped_device" where
  "new_MappedDevice env no_value dev m =
     \<lparr>h_device = dev\<lparr>dev_name :=
          (if dev_name dev \<noteq> [] then dev_name dev
           else env_upperFirst env (dev_class dev) @ '' Device'')\<rparr>,
      h_class = dev_class dev,
      h_capabilities = dev_capabilities dev,
      h_category = m_category m,
      h_maps = [m],
      h_accessory = None,
      h_listeners = [],
      h_log = [],
      h_requests = [],
      h_NO_VALUE = no_value\<rparr>"

definition addMap :: "capmap \<Rightarrow> mapped_device \<Rightarrow> mapped_device" where
  "addMap m h =
     (if h_category h = Some Categories_OTHER
      then h\<lparr>h_category :=
               Some (case m_category m of None \<Rightarrow> Categories_OTHER | Some c \<Rightarrow> c),
             h_maps := h_maps h @ [m]\<rparr>
      else h\<lparr>h_maps := h_maps h @ [m]\<rparr>)"

definition strip_app_prefix :: "string \<Rightarrow> string" where
  \<comment> \<open>\<open>.replace(/^homey:app:/, '')\<close>\<close>
  "strip_app_prefix s = (if prefix ''homey:app:'' s then drop 10 s else s)"

definition createAccessory :: "mapped_device \<Rightarrow> accessory" where
  "createAccessory h =
     (let dev = h_device h in
      \<lparr>a_displayName = dev_name dev,
       a_id = dev_id dev,
       a_category = h_category h,
       a_services =
         [\<lparr>s_type = ''AccessoryInformation'', s_displayName = dev_name dev, s_subtype = [],
           s_characteristics =
             [(new_characteristic ''Manufacturer'')
                \<lparr>c_value := Str (strip_app_prefix
                    (case dev_driverId dev of None \<Rightarrow> ''undefined'' | Some d \<Rightarrow> d))\<rparr>,
              (new_characteristic ''Model'')
                \<lparr>c_value := Str (dev_name dev @ '' ('' @
                    (case dev_zoneName dev of
                       None \<Rightarrow> ''onbekende zone''
                     | Some z \<Rightarrow> if z = [] then ''onbekende zone'' else z) @ '')'')\<rparr>,
              (new_characteristic ''SerialNumber'')\<lparr>c_value := Str (dev_id dev)\<rparr>]\<rparr>],
       a_controllers = []\<rparr>)"

definition cap_value :: "device \<Rightarrow> string \<Rightarrow> jsval" where
  \<comment> \<open>\<open>device.capabilitiesObj?.[capability]?.value\<close>\<close>
  "cap_value dev capability =
     (case dev_capabilitiesObj dev of
        None \<Rightarrow> Undefined
      | Some obj \<Rightarrow> (case map_of obj capability of None \<Rightarrow> Undefined | Some v \<Rightarrow> v))"

definition updateCapability :: "string \<Rightarrow> jsval \<Rightarrow> device \<Rightarrow> device" where
  "updateCapability capability v dev =
     dev\<lparr>dev_capabilitiesObj :=
           Some (AList.update capability v
                   (case dev_capabilitiesObj dev of None \<Rightarrow> [] | Some obj \<Rightarrow> obj))\<rparr>"

section \<open>Binder: accessorize\<close>

text \<open>
  What \<open>accessorize\<close> builds while it runs: the accessory, the subscriptions pushed on
  \<open>#listeners\<close>, the log. A step that can throw returns the error, if any, together with
  the state it has reached, because what was built before the throw stays built.
\<close>

record bstate =
  bs_accessory :: accessory
  bs_listeners :: "listener list"
  bs_log :: "log_entry list"

definition logs :: "log_entry \<Rightarrow> bstate \<Rightarrow> bstate" where
  "logs e bs = bs\<lparr>bs_log := bs_log bs @ [e]\<rparr>"

definition on_bound ::
  "nat \<Rightarrow> string \<Rightarrow> (characteristic \<Rightarrow> characteristic) \<Rightarrow> bstate \<Rightarrow> bstate" where
  "on_bound svc klass f bs =
     bs\<lparr>bs_accessory := on_service svc (on_characteristic klass f) (bs_accessory bs)\<rparr>"

fun for_each :: "('s \<Rightarrow> 'a \<Rightarrow> error option \<times> 's) \<Rightarrow> 'a list \<Rightarrow> 's \<Rightarrow> error option \<times> 's" where
  \<comment> \<open>a \<open>for .. of\<close> loop whose body may throw\<close>
  "for_each f [] s = (None, s)"
| "for_each f (x # xs) s =
     (case f s x of (Some e, s') \<Rightarrow> (Some e, s') | (None, s') \<Rightarrow> for_each f xs s')"

definition install_handlers ::
  "capmap \<Rightarrow> string \<Rightarrow> bool \<Rightarrow> transform option \<Rightarrow> transform option
     \<Rightarrow> jsval \<Rightarrow> bool \<Rightarrow> nat \<Rightarrow> string \<Rightarrow> characteristic \<Rightarrow> characteristic" where
  \<comment> \<open>what lines 157 to 178 register on the characteristic: the \<open>change\<close> listener,
      the read handler and the debounced write handler\<close>
  "install_handlers m capability isTrigger getter setter debounceTimeout debounceImmediate
       svc klass c =
     (let c1 = (if m_onUpdate m then c\<lparr>c_change := Suc (c_change c)\<rparr> else c);
          c2 = (if \<not> isTrigger
                then (case getter of
                        None \<Rightarrow> c1
                      | Some g \<Rightarrow>
                          c1\<lparr>c_onGet := Some \<lparr>gh_capability = capability, gh_getter = g,
                                 gh_service = svc, gh_klass = klass\<rparr>\<rparr>)
                else c1)
      in (if \<not> isTrigger
          then (case setter of
                  None \<Rightarrow> c2
                | Some s \<Rightarrow>
                    c2\<lparr>c_onSet := Some (debounce
                          \<lparr>sh_capability = capability, sh_setter = s, sh_service = svc,
                           sh_klass = klass\<rparr> debounceTimeout debounceImmediate)\<rparr>)
          else c2))"

definition bind_characteristic ::
  "capmap \<Rightarrow> device \<Rightarrow> string \<Rightarrow> bool \<Rightarrow> transform option \<Rightarrow> transform option
     \<Rightarrow> jsval \<Rightarrow> bool \<Rightarrow> nat \<Rightarrow> string \<Rightarrow> bstate \<Rightarrow> bstate" where
  \<comment> \<open>the callback of \<open>.map(klass => ..)\<close>, lines 153 to 181\<close>
  "bind_characteristic m dev capability isTrigger getter setter debounceTimeout
       debounceImmediate svc klass bs =
     on_bound svc klass
       (install_handlers m capability isTrigger getter setter debounceTimeout
          debounceImmediate svc klass)
       (logs (LogBinding capability isTrigger klass debounceTimeout)
          (bs\<lparr>bs_accessory := on_service svc (getCharacteristic klass) (bs_accessory bs)\<rparr>))"

definition bind_characteristicMap ::
  "capmap \<Rightarrow> device \<Rightarrow> string \<Rightarrow> bool \<Rightarrow> nat \<Rightarrow> binding \<Rightarrow> bstate \<Rightarrow> bstate" where
  \<comment> \<open>the body of \<open>for (const characteristicMap of ..)\<close>, lines 145 to 196\<close>
  "bind_characteristicMap m dev capability isTrigger svc characteristicMap bs =
     (let debounceTimeout =
            (if truthy (b_debounce characteristicMap) then b_debounce characteristicMap
             else Num 0);
          debounceImmediate = (if truthy (b_debounce characteristicMap) then False else True);
          i = (if capability \<in> set (dev_capabilities dev) then 0 else 1);
          getter = nth_opt (b_get characteristicMap) i;
          setter = nth_opt (b_set characteristicMap) i;
          bs1 = fold (bind_characteristic m dev capability isTrigger getter setter
                        debounceTimeout debounceImmediate svc)
                  (b_characteristics characteristicMap) bs
      in bs1\<lparr>bs_listeners := bs_listeners bs1 @
            [\<lparr>l_capability = capability,
              l_callback = debounce
                \<lparr>cb_capability = capability, cb_getter = getter, cb_service = svc,
                 cb_characteristics = b_characteristics characteristicMap\<rparr>
                debounceTimeout debounceImmediate,
              l_destroyed = False\<rparr>]\<rparr>)"

definition resolve_service ::
  "capmap \<Rightarrow> device \<Rightarrow> string \<Rightarrow> nat option \<times> bstate \<Rightarrow> error option \<times> nat option \<times> bstate" where
  \<comment> \<open>\<open>if (! service) { .. }\<close>, lines 131 to 143\<close>
  "resolve_service m dev grp st =
     (case fst st of
        Some svc \<Rightarrow> (None, st)
      | None \<Rightarrow>
          let bs = snd st;
              hook = (\<lambda>svc b. if m_onService m then logs (HookOnService svc) b else b)
          in (case getService (m_service m) (bs_accessory bs) of
                Some svc \<Rightarrow>
                  if m_group m = Bool True
                  then (case addService (m_service m) (dev_name dev)
                               (if grp \<noteq> [] then grp else ''default'') (bs_accessory bs) of
                          Inl e \<Rightarrow> (Some e, None, logs (LogNewService (m_service m)) bs)
                        | Inr (new, a) \<Rightarrow>
                            (None, Some new,
                             hook new ((logs (LogNewService (m_service m)) bs)
                                         \<lparr>bs_accessory := a\<rparr>)))
                  else (None, Some svc, hook svc (logs (LogExistingService (m_service m)) bs))
              | None \<Rightarrow>
                  (case addService (m_service m) (dev_name dev)
                         (if grp \<noteq> [] then grp else ''default'') (bs_accessory bs) of
                     Inl e \<Rightarrow> (Some e, None, logs (LogNewService (m_service m)) bs)
                   | Inr (new, a) \<Rightarrow>
                       (None, Some new,
                        hook new ((logs (LogNewService (m_service m)) bs)
                                    \<lparr>bs_accessory := a\<rparr>)))))"

definition bind_capability ::
  "capmap \<Rightarrow> device \<Rightarrow> string \<Rightarrow> nat option \<times> bstate \<Rightarrow> string
     \<Rightarrow> error option \<times> nat option \<times> bstate" where
  \<comment> \<open>the body of \<open>for (const prefix of capabilities)\<close>, lines 124 to 196, with
      \<open>pfx\<close> for \<open>prefix\<close>. A prefix named
      like a property of \<open>Object.prototype\<close> finds that inherited value in place of a
      binding; its \<open>characteristics\<close> field is \<open>undefined\<close> and using it is a TypeError\<close>
  "bind_capability m dev grp st pfx =
     (let capability = pfx @ (if grp \<noteq> [] then ''.'' @ grp else []);
          required = obj_get (m_required m) pfx;
          optional = obj_get (m_optional m) pfx;
          triggers = obj_get (m_triggers m) pfx;
          characteristicMaps =
            (if required \<noteq> Absent then required
             else if optional \<noteq> Absent then optional else triggers);
          isTrigger = (triggers \<noteq> Absent)
      in if characteristicMaps = Absent then (None, st)
         else (case resolve_service m dev grp st of
                 (Some e, st') \<Rightarrow> (Some e, st')
               | (None, None, bs) \<Rightarrow> (None, None, bs)
               | (None, Some svc, bs) \<Rightarrow>
                   (case characteristicMaps of
                      Own cms \<Rightarrow>
                        (None, Some svc,
                         fold (bind_characteristicMap m dev capability isTrigger svc) cms bs)
                    | _ \<Rightarrow>
                        (Some (TypeError ''Cannot read properties of undefined (reading name)''),
                         Some svc, bs))))"

definition adaptive_lighting :: "nat \<Rightarrow> bstate \<Rightarrow> bstate" where
  \<comment> \<open>the \<open>try\<close> block of lines 201 to 219; the accessory library refuses a second
      controller of the same kind, which the \<open>catch\<close> logs\<close>
  "adaptive_lighting svc bs =
     (let a = on_service svc (getCharacteristic ''ColorTemperature'')
                (on_service svc (getCharacteristic ''Brightness'') (bs_accessory bs))
      in if a_controllers a = []
         then logs LogAdaptiveEnabled (bs\<lparr>bs_accessory := a\<lparr>a_controllers := [svc]\<rparr>\<rparr>)
         else logs LogAdaptiveError (bs\<lparr>bs_accessory := a\<rparr>))"

definition bind_group ::
  "capmap \<Rightarrow> device \<Rightarrow> bstate \<Rightarrow> string \<times> string list \<Rightarrow> error option \<times> bstate" where
  \<comment> \<open>the body of \<open>for (const [ group, capabilities ] of ..)\<close>, lines 119 to 220\<close>
  "bind_group m dev bs entry =
     (let grp = fst entry; capabilities = snd entry;
          bs0 = logs (LogGroup (if grp \<noteq> [] then grp else ''DEFAULT'') capabilities) bs
      in (case for_each (bind_capability m dev grp) capabilities (None, bs0) of
            (Some e, service, bs1) \<Rightarrow> (Some e, bs1)
          | (None, None, bs1) \<Rightarrow> (None, bs1)
          | (None, Some svc, bs1) \<Rightarrow>
              (None, if m_adaptiveLighting m then adaptive_lighting svc bs1 else bs1)))"

definition bind_map ::
  "device \<Rightarrow> string list jsobj \<Rightarrow> bstate \<Rightarrow> capmap \<Rightarrow> error option \<times> bstate" where
  \<comment> \<open>the body of \<open>for (const map of this.#maps)\<close>\<close>
  "bind_map dev groups bs m =
     for_each (bind_group m dev)
       (object_entries (if truthy (m_group m) then groups else flattenGroups groups))
       (logs (LogMap (m_name m)) bs)"

definition accessorize :: "mapped_device \<Rightarrow> (error + accessory) \<times> mapped_device" where
  "accessorize h =
     (case h_accessory h of
        Some cachedAccessory \<Rightarrow> (Inr cachedAccessory, h)
      | None \<Rightarrow>
          let accessory = createAccessory h in
          (case groupCapabilities (h_device h) of
             Inl e \<Rightarrow> (Inl e, h\<lparr>h_accessory := Some accessory\<rparr>)
           | Inr groups \<Rightarrow>
               (case for_each (bind_map (h_device h) groups) (h_maps h)
                       \<lparr>bs_accessory = accessory, bs_listeners = h_listeners h,
                        bs_log = h_log h\<rparr> of
                  (r, bs) \<Rightarrow>
                    ((case r of Some e \<Rightarrow> Inl e | None \<Rightarrow> Inr (bs_accessory bs)),
                     h\<lparr>h_accessory := Some (bs_accessory bs),
                       h_listeners := bs_listeners bs,
                       h_log := bs_log bs\<rparr>))))"

section \<open>Handlers at run time\<close>

definition missing_value :: "string \<Rightarrow> error" where
  "missing_value capability =
     Error (''missing capability value for '' @ [CHR 0x27] @ capability @ [CHR 0x27])"

definition run_onGet :: "env \<Rightarrow> mapped_device \<Rightarrow> get_handler \<Rightarrow> error + jsval" where
  \<comment> \<open>the read handler given to \<open>characteristic.onGet\<close>, lines 165 to 169\<close>
  "run_onGet env h gh =
     (let rawValue = cap_value (h_device h) (gh_capability gh) in
      if rawValue = Undefined then Inl (missing_value (gh_capability gh))
      else (case gh_getter gh rawValue
                   \<lparr>ctx_device = h_device h, ctx_service = gh_service gh,
                    ctx_capability = None, ctx_characteristic = gh_klass gh\<rparr> of
              Inl e \<Rightarrow> Inl e
            | Inr v \<Rightarrow> Inr (env_validate env (gh_klass gh) v)))"

definition run_onSet ::
  "env \<Rightarrow> set_handler \<Rightarrow> jsval \<Rightarrow> mapped_device \<Rightarrow> error option \<times> mapped_device" where
  \<comment> \<open>the function wrapped for \<open>characteristic.onSet\<close>, lines 172 to 176. A rejection of
      \<open>setCapabilityValue\<close> ends in \<open>.catch(() => {})\<close>\<close>
  "run_onSet env sh rawValue h =
     (case sh_setter sh rawValue
             \<lparr>ctx_device = h_device h, ctx_service = sh_service sh,
              ctx_capability = None, ctx_characteristic = sh_klass sh\<rparr> of
        Inl e \<Rightarrow> (Some e, h)
      | Inr v \<Rightarrow>
          (None,
           h\<lparr>h_requests := h_requests h
                @ [(sh_capability sh, v, env_accepts env (sh_capability sh) v)],
             h_device := updateCapability (sh_capability sh) v (h_device h)\<rparr>))"

definition update_characteristic ::
  "env \<Rightarrow> update_callback \<Rightarrow> jsval \<Rightarrow> mapped_device \<Rightarrow> string
     \<Rightarrow> error option \<times> mapped_device" where
  \<comment> \<open>the body of \<open>for (const characteristic of characteristics)\<close>, lines 188 to 191\<close>
  "update_characteristic env cb rawValue h klass =
     (case cb_getter cb of
        None \<Rightarrow> (Some (TypeError ''getter is not a function''), h)
      | Some getter \<Rightarrow>
          (case getter rawValue
                  \<lparr>ctx_device = h_device h, ctx_service = cb_service cb,
                   ctx_capability = Some (cb_capability cb), ctx_characteristic = klass\<rparr> of
             Inl e \<Rightarrow> (Some e, h)
           | Inr v \<Rightarrow>
               if v = h_NO_VALUE h then (None, h)
               else (None,
                     h\<lparr>h_accessory :=
                         map_option
                           (on_service (cb_service cb)
                              (on_characteristic klass
                                 (\<lambda>c. c\<lparr>c_value := env_validate env klass v\<rparr>)))
                           (h_accessory h)\<rparr>)))"

definition run_update ::
  "env \<Rightarrow> update_callback \<Rightarrow> jsval \<Rightarrow> mapped_device \<Rightarrow> error option \<times> mapped_device" where
  \<comment> \<open>the function wrapped for \<open>device.makeCapabilityInstance\<close>, lines 185 to 194\<close>
  "run_update env cb rawValue h =
     (case for_each (update_characteristic env cb rawValue) (cb_characteristics cb)
             (h\<lparr>h_log := h_log h @ [LogCapabilityUpdate (cb_capability cb) rawValue]\<rparr>) of
        (Some e, h1) \<Rightarrow> (Some e, h1)
      | (None, h1) \<Rightarrow>
          (None, h1\<lparr>h_device := updateCapability (cb_capability cb) rawValue (h_device h1)\<rparr>))"

section \<open>Events on a handle\<close>

text \<open>
  Modelled from the spec: the subscription primitive of the device and the timers are
  not part of the repository. A subscription delivers the values the device emits for its
  capability until \<open>destroy()\<close> is called on it; \<open>destroy()\<close> knows nothing of the
  debounce wrapper the binder passed as callback.
\<close>

definition read_characteristic ::
  "env \<Rightarrow> nat \<Rightarrow> string \<Rightarrow> mapped_device \<Rightarrow> error + jsval" where
  \<comment> \<open>a read request of the target protocol on a characteristic\<close>
  "read_characteristic env svc klass h =
     (case h_accessory h of
        None \<Rightarrow> Inr Undefined
      | Some a \<Rightarrow>
          (case find_characteristic svc klass a of
             None \<Rightarrow> Inr Undefined
           | Some c \<Rightarrow>
               (case c_onGet c of None \<Rightarrow> Inr (c_value c) | Some gh \<Rightarrow> run_onGet env h gh)))"

definition set_onSet ::
  "nat \<Rightarrow> string \<Rightarrow> set_handler debounced \<Rightarrow> mapped_device \<Rightarrow> mapped_device" where
  "set_onSet svc klass d h =
     h\<lparr>h_accessory :=
         map_option (on_service svc (on_characteristic klass (\<lambda>c. c\<lparr>c_onSet := Some d\<rparr>)))
           (h_accessory h)\<rparr>"

definition write_characteristic ::
  "env \<Rightarrow> nat \<Rightarrow> string \<Rightarrow> jsval \<Rightarrow> mapped_device \<Rightarrow> error option \<times> mapped_device" where
  \<comment> \<open>a write request of the target protocol: the debounced write handler is called\<close>
  "write_characteristic env svc klass rawValue h =
     (case h_accessory h of
        None \<Rightarrow> (None, h)
      | Some a \<Rightarrow>
          (case find_characteristic svc klass a of
             None \<Rightarrow> (None, h)
           | Some c \<Rightarrow>
               (case c_onSet c of
                  None \<Rightarrow> (None, h)
                | Some d \<Rightarrow>
                    (case debounced_call d rawValue of
                       (None, d') \<Rightarrow> (None, set_onSet svc klass d' h)
                     | (Some v, d') \<Rightarrow> run_onSet env (d_fn d') v (set_onSet svc klass d' h)))))"

definition write_timer ::
  "env \<Rightarrow> nat \<Rightarrow> string \<Rightarrow> mapped_device \<Rightarrow> error option \<times> mapped_device" where
  \<comment> \<open>the timer of a debounced write handler fires\<close>
  "write_timer env svc klass h =
     (case h_accessory h of
        None \<Rightarrow> (None, h)
      | Some a \<Rightarrow>
          (case find_characteristic svc klass a of
             None \<Rightarrow> (None, h)
           | Some c \<Rightarrow>
               (case c_onSet c of
                  None \<Rightarrow> (None, h)
                | Some d \<Rightarrow>
                    (case debounced_timer d of
                       (None, d') \<Rightarrow> (None, set_onSet svc klass d' h)
                     | (Some v, d') \<Rightarrow> run_onSet env (d_fn d') v (set_onSet svc klass d' h)))))"

definition deliver ::
  "env \<Rightarrow> nat \<Rightarrow> jsval \<Rightarrow> mapped_device \<Rightarrow> error option \<times> mapped_device" where
  \<comment> \<open>the device emits a value on the \<open>i\<close>-th subscription of the handle\<close>
  "deliver env i rawValue h =
     (if i < length (h_listeners h) \<and> \<not> l_destroyed (h_listeners h ! i)
      then (let l = h_listeners h ! i in
            case debounced_call (l_callback l) rawValue of
              (None, d') \<Rightarrow> (None, h\<lparr>h_listeners := (h_listeners h)[i := l\<lparr>l_callback := d'\<rparr>]\<rparr>)
            | (Some v, d') \<Rightarrow>
                run_update env (d_fn d') v
                  (h\<lparr>h_listeners := (h_listeners h)[i := l\<lparr>l_callback := d'\<rparr>]\<rparr>))
      else (None, h))"

definition update_timer ::
  "env \<Rightarrow> nat \<Rightarrow> mapped_device \<Rightarrow> error option \<times> mapped_device" where
  \<comment> \<open>the timer of the debounced callback of the \<open>i\<close>-th subscription fires\<close>
  "update_timer env i h =
     (if i < length (h_listeners h)
      then (let l = h_listeners h ! i in
            case debounced_timer (l_callback l) of
              (None, d') \<Rightarrow> (None, h\<lparr>h_listeners := (h_listeners h)[i := l\<lparr>l_callback := d'\<rparr>]\<rparr>)
            | (Some v, d') \<Rightarrow>
                run_update env (d_fn d') v
                  (h\<lparr>h_listeners := (h_listeners h)[i := l\<lparr>l_callback := d'\<rparr>]\<rparr>))
      else (None, h))"

definition destroy :: "listener \<Rightarrow> listener" where
  "destroy l = l\<lparr>l_destroyed := True\<rparr>"

definition cleanup :: "mapped_device \<Rightarrow> mapped_device" where
  \<comment> \<open>\<open>this.#listeners.forEach(listener => listener.destroy())\<close>\<close>
  "cleanup h = h\<lparr>h_listeners := map destroy (h_listeners h)\<rparr>"

section \<open>The application: addDeviceToHomeKit\<close>

text \<open>
  \<open>DeviceMapper.mapDevice\<close>, the settings store and the bridge are not part of the
  sources: what they answer is a parameter. The handle \<open>mapDevice\<close> returns belongs to the
  mapper; the application keeps the exposure ledger and the bridged accessories.
\<close>

datatype app_log =
    NotReady
  | NotInExposedMap jsval
  | TryingMapper
  | WasAbleToMap
  | ShouldBeExposed
  | UnableToExpose error
  | NotExposed
  | UnableToMap

record app =
  app_exposed :: ledger
  app_bridged :: "accessory list"
  app_log :: "app_log list"

record app_env =
  ae_NewDevicePublish :: jsval
  ae_mapDevice :: "device \<Rightarrow> mapped_device option"
  ae_addBridgedAccessory :: "accessory list \<Rightarrow> accessory \<Rightarrow> error option"

definition isVirtualDevice :: "device option \<Rightarrow> bool" where
  \<comment> \<open>\<open>!!device?.driverId?.startsWith('homey:app:name.klep.homekitty:')\<close>\<close>
  "isVirtualDevice device =
     (case device of
        None \<Rightarrow> False
      | Some dev \<Rightarrow>
          (case dev_driverId dev of
             None \<Rightarrow> False
           | Some d \<Rightarrow> prefix ''homey:app:name.klep.homekitty:'' d))"

definition app_logs :: "app_log \<Rightarrow> app \<Rightarrow> app" where
  "app_logs e a = a\<lparr>app_log := app_log a @ [e]\<rparr>"

definition addDeviceToHomeKit :: "app_env \<Rightarrow> device option \<Rightarrow> app \<Rightarrow> jsval \<times> app" where
  "addDeviceToHomeKit env device a =
     (if isVirtualDevice device then (Undefined, a)
      else (case device of
              None \<Rightarrow> (Bool False, app_logs NotReady a)
            | Some dev \<Rightarrow>
                if \<not> dev_ready dev \<or> dev_capabilitiesObj dev = None
                then (Bool False, app_logs NotReady a)
                else
                  (let exposureState =
                         (if ae_NewDevicePublish env = Undefined \<or> ae_NewDevicePublish env = Null
                          then Bool True else ae_NewDevicePublish env);
                       a1 = (if \<not> sbm_has (app_exposed a) (dev_id dev)
                             then (app_logs (NotInExposedMap exposureState) a)
                                    \<lparr>app_exposed :=
                                        sbm_set (dev_id dev) exposureState (app_exposed a)\<rparr>
                             else a);
                       a2 = app_logs TryingMapper a1
                   in (case ae_mapDevice env dev of
                         Some mappedDevice \<Rightarrow>
                           (let a3 = app_logs WasAbleToMap a2 in
                            if sbm_get (app_exposed a3) (dev_id dev) \<noteq> Bool False
                            then (case fst (accessorize mappedDevice) of
                                    Inl e \<Rightarrow>
                                      (Bool False,
                                       app_logs (UnableToExpose e) (app_logs ShouldBeExposed a3))
                                  | Inr accessory \<Rightarrow>
                                      (case ae_addBridgedAccessory env (app_bridged a3) accessory of
                                         Some e \<Rightarrow>
                                           (Bool False,
                                            app_logs (UnableToExpose e)
                                              (app_logs ShouldBeExposed a3))
                                       | None \<Rightarrow>
                                           (Bool True,
                                            (app_logs ShouldBeExposed a3)
                                              \<lparr>app_bridged := app_bridged a3 @ [accessory]\<rparr>)))
                            else (Bool True, app_logs NotExposed a3))
                       | None \<Rightarrow>
                           (Bool False,
                            app_logs UnableToMap
                              (a2\<lparr>app_exposed :=
                                    sbm_set (dev_id dev) (Bool False) (app_exposed a2)\<rparr>))))))"

section \<open>A dimmable light, for the concrete instances\<close>

text \<open>
  A device with the capabilities \<open>onoff\<close> and \<open>dim\<close>, both visible, of which only
  \<open>onoff\<close> has a value; a map in the shape of the light map of the catalogue, whose
  \<open>dim\<close> binding is debounced by 300 ms and whose \<open>onoff\<close> binding is not; validation
  that changes nothing; a device that rejects every write.
\<close>

definition ex_same :: transform where
  "ex_same v c = Inr v"

definition ex_percent :: transform where
  "ex_percent v c = (case v of Num n \<Rightarrow> Inr (Num (n div 10)) | _ \<Rightarrow> Inr v)"

definition ex_permille :: transform where
  "ex_permille v c = (case v of Num n \<Rightarrow> Inr (Num (n * 10)) | _ \<Rightarrow> Inr v)"

definition ex_onoff :: binding where
  "ex_onoff = \<lparr>b_characteristics = [''On''], b_get = [ex_same], b_set = [ex_same],
               b_debounce = Undefined\<rparr>"

definition ex_dim :: binding where
  "ex_dim = \<lparr>b_characteristics = [''Brightness''], b_get = [ex_percent],
             b_set = [ex_permille], b_debounce = Num 300\<rparr>"

definition ex_map :: capmap where
  "ex_map =
     \<lparr>m_name = ''light'', m_service = ''Lightbulb'', m_group = Bool True,
      m_category = Some 5, m_adaptiveLighting = True,
      m_required = Some [(''onoff'', [ex_onoff]), (''dim'', [ex_dim])],
      m_optional = None, m_triggers = None, m_onService = False, m_onUpdate = False\<rparr>"

definition ex_device :: device where
  "ex_device =
     \<lparr>dev_id = ''dev-1'', dev_name = ''Lamp'', dev_class = ''light'',
      dev_driverId = Some ''homey:app:com.example'', dev_zoneName = Some ''Kitchen'',
      dev_ready = True, dev_capabilities = [''onoff'', ''dim''],
      dev_capabilitiesObj = Some [(''onoff'', Bool True)],
      dev_ui_components = Some [ [''onoff''], [''dim''] ]\<rparr>"

definition ex_env :: env where
  "ex_env = \<lparr>env_upperFirst = (\<lambda>s. s), env_validate = (\<lambda>klass v. v),
             env_accepts = (\<lambda>capability v. False)\<rparr>"

definition ex_handle :: mapped_device where
  "ex_handle = new_MappedDevice ex_env (Sym ''NO_VALUE'') ex_device ex_map"

definition ex_bound :: mapped_device where
  \<comment> \<open>the handle after its first \<open>accessorize()\<close>\<close>
  "ex_bound = snd (accessorize ex_handle)"

definition ex_accessory :: accessory where
  \<comment> \<open>the accessory that first call built\<close>
  "ex_accessory =
     (case fst (accessorize ex_handle) of Inr a \<Rightarrow> a | Inl e \<Rightarrow> createAccessory ex_handle)"

section \<open>Properties of the exposure ledger\<close>

lemma update_same_iff: "AList.update k v es = es \<longleftrightarrow> map_of es k = Some v"
  by (induction es) auto

lemma delete_present: "k \<in> fst ` set es \<Longrightarrow> AList.delete k es \<noteq> es"
proof
  assume a: "k \<in> fst ` set es" and e: "AList.delete k es = es"
  have "k \<notin> fst ` set (AList.delete k es)"
    by (induction es) auto
  with a e show False by simp
qed

text \<open>
  C4. \<open>set(id, v)\<close> leaves the dirty bit as it was when the stored value read by
  \<open>get(id)\<close> already is \<open>v\<close> (and, the key being present, leaves the whole ledger as it
  was), and makes the ledger dirty when the value differs; \<open>delete(id)\<close> of an absent key
  changes nothing, and of a present key makes the ledger dirty.
\<close>

theorem set_delete_dirty_only_on_change:
  "(sbm_get s k = v \<longrightarrow> sbm_isDirty (sbm_set k v s) = sbm_isDirty s)
   \<and> (sbm_has s k \<and> sbm_get s k = v \<longrightarrow> sbm_set k v s = s)
   \<and> (sbm_get s k \<noteq> v \<longrightarrow> sbm_isDirty (sbm_set k v s))
   \<and> (\<not> sbm_has s k \<longrightarrow> sbm_delete k s = s)
   \<and> (sbm_has s k \<longrightarrow> sbm_isDirty (sbm_delete k s)
        \<and> sbm_entries (sbm_delete k s) \<noteq> sbm_entries s)"
proof -
  have present: "sbm_has s k \<Longrightarrow> sbm_get s k = v \<Longrightarrow> map_of (sbm_entries s) k = Some v"
    unfolding sbm_has_def sbm_get_def
    by (cases "map_of (sbm_entries s) k") (auto simp: map_of_eq_None_iff)
  have a: "sbm_get s k = v \<longrightarrow> sbm_isDirty (sbm_set k v s) = sbm_isDirty s"
    by (simp add: sbm_isDirty_def sbm_set_def)
  have b: "sbm_has s k \<and> sbm_get s k = v \<longrightarrow> sbm_set k v s = s"
    using present by (auto simp: sbm_set_def update_same_iff)
  have c: "sbm_get s k \<noteq> v \<longrightarrow> sbm_isDirty (sbm_set k v s)"
    by (simp add: sbm_isDirty_def sbm_set_def)
  have d: "\<not> sbm_has s k \<longrightarrow> sbm_delete k s = s"
    by (simp add: sbm_delete_def sbm_has_def)
  have e: "sbm_has s k \<longrightarrow> sbm_isDirty (sbm_delete k s)
        \<and> sbm_entries (sbm_delete k s) \<noteq> sbm_entries s"
    by (simp add: sbm_delete_def sbm_has_def sbm_isDirty_def delete_present)
  from a b c d e show ?thesis by blast
qed

lemma loaded_dev1:
  "new_StorageBackedMap (Some [(''dev-1'', Bool True)]) =
     \<lparr>sbm_entries = [(''dev-1'', Bool True)], sbm_dirty = False, sbm_saved = []\<rparr>"
  by (simp add: new_StorageBackedMap_def object_entries_def is_array_index_def is_digit_def
        sbm_set_def sbm_get_def)

theorem set_delete_dirty_only_on_change_witness:
  "sbm_get (new_StorageBackedMap (Some [(''dev-1'', Bool True)])) ''dev-1'' = Bool True
   \<and> sbm_has (new_StorageBackedMap (Some [(''dev-1'', Bool True)])) ''dev-1''
   \<and> \<not> sbm_isDirty (sbm_set ''dev-1'' (Bool True)
           (new_StorageBackedMap (Some [(''dev-1'', Bool True)])))
   \<and> sbm_get (new_StorageBackedMap (Some [(''dev-1'', Bool True)])) ''dev-1'' \<noteq> Bool False
   \<and> sbm_isDirty (sbm_set ''dev-1'' (Bool False)
           (new_StorageBackedMap (Some [(''dev-1'', Bool True)])))
   \<and> \<not> sbm_has (new_StorageBackedMap (Some [(''dev-1'', Bool True)])) ''dev-2''
   \<and> \<not> sbm_isDirty (sbm_delete ''dev-2''
           (new_StorageBackedMap (Some [(''dev-1'', Bool True)])))
   \<and> sbm_isDirty (sbm_delete ''dev-1''
           (new_StorageBackedMap (Some [(''dev-1'', Bool True)])))"
  using set_delete_dirty_only_on_change
          [of "new_StorageBackedMap (Some [(''dev-1'', Bool True)])" "''dev-1''" "Bool True"]
        set_delete_dirty_only_on_change
          [of "new_StorageBackedMap (Some [(''dev-1'', Bool True)])" "''dev-1''" "Bool False"]
        set_delete_dirty_only_on_change
          [of "new_StorageBackedMap (Some [(''dev-1'', Bool True)])" "''dev-2''" "Bool True"]
  by (simp add: loaded_dev1 sbm_get_def sbm_has_def sbm_isDirty_def)

lemma fold_set_entries:
  "sbm_entries (fold (\<lambda>k. sbm_set k v) ks s) = fold (\<lambda>k. AList.update k v) ks (sbm_entries s)"
  by (induction ks arbitrary: s) (simp_all add: sbm_set_def)

lemma fold_set_saved:
  "sbm_saved (fold (\<lambda>k. sbm_set k v) ks s) = sbm_saved s"
  by (induction ks arbitrary: s) (simp_all add: sbm_set_def)

lemma sbm_get_set: "sbm_get (sbm_set k v s) k' = (if k' = k then v else sbm_get s k')"
  by (simp add: sbm_get_def sbm_set_def update_conv')

lemma fold_set_dirty:
  "sbm_dirty (fold (\<lambda>k. sbm_set k v) ks s) = (sbm_dirty s \<or> (\<exists>k\<in>set ks. sbm_get s k \<noteq> v))"
proof (induction ks arbitrary: s)
  case Nil
  then show ?case by simp
next
  case (Cons k ks)
  have "sbm_dirty (sbm_set k v s) = (sbm_dirty s \<or> sbm_get s k \<noteq> v)"
    by (simp add: sbm_set_def)
  with Cons show ?case
    by (auto simp: sbm_get_set)
qed

lemma fold_update_keys:
  "set ks \<subseteq> fst ` set es \<Longrightarrow> map fst (fold (\<lambda>k. AList.update k v) ks es) = map fst es"
proof (induction ks arbitrary: es)
  case Nil
  then show ?case by simp
next
  case (Cons a ks)
  have k: "map fst (AList.update a v es) = map fst es"
    using Cons.prems by (simp add: update_keys)
  then have "set (map fst (AList.update a v es)) = set (map fst es)"
    by simp
  then have d: "fst ` set (AList.update a v es) = fst ` set es"
    by simp
  have "map fst (fold (\<lambda>k. AList.update k v) ks (AList.update a v es)) = map fst (AList.update a v es)"
    using Cons.prems d by (intro Cons.IH) simp
  with k show ?case by simp
qed

lemma fold_update_map_of:
  "map_of (fold (\<lambda>k. AList.update k v) ks es) k = (if k \<in> set ks then Some v else map_of es k)"
  by (induction ks arbitrary: es) (auto simp: update_conv')

text \<open>
  C5, as the code has it. \<open>setAll(v)\<close> keeps the keys, makes every existing key read
  \<open>v\<close> and leaves the ledger clean. The sink is called once, with the updated snapshot,
  when the ledger was dirty before or some key did not already hold \<open>v\<close>; otherwise
  \<open>save\<close> returns at its dirty-bit guard and the sink is not called.
\<close>

theorem setAll_sets_all_saves_when_dirty:
  "sbm_keys (sbm_setAll v s) = sbm_keys s
   \<and> (\<forall>k. sbm_has s k \<longrightarrow> sbm_get (sbm_setAll v s) k = v)
   \<and> \<not> sbm_isDirty (sbm_setAll v s)
   \<and> sbm_saved (sbm_setAll v s) =
       (if sbm_isDirty s \<or> (\<exists>k\<in>set (sbm_keys s). sbm_get s k \<noteq> v)
        then sbm_saved s @ [sbm_entries (sbm_setAll v s)] else sbm_saved s)"
proof -
  let ?t = "fold (\<lambda>k. sbm_set k v) (sbm_keys s) s"
  have keys: "sbm_keys ?t = sbm_keys s"
    unfolding sbm_keys_def fold_set_entries
    by (rule fold_update_keys) simp
  have vals: "\<forall>k. sbm_has s k \<longrightarrow> sbm_get ?t k = v"
    by (simp add: sbm_has_def sbm_get_def fold_set_entries fold_update_map_of sbm_keys_def)
  have dirty: "sbm_dirty ?t = (sbm_isDirty s \<or> (\<exists>k\<in>set (sbm_keys s). sbm_get s k \<noteq> v))"
    by (simp add: fold_set_dirty sbm_isDirty_def)
  have saved: "sbm_saved ?t = sbm_saved s"
    by (rule fold_set_saved)
  have e: "sbm_entries (sbm_save ?t) = sbm_entries ?t"
    by (simp add: sbm_save_def)
  have 1: "sbm_keys (sbm_setAll v s) = sbm_keys s"
    using keys e by (simp add: sbm_setAll_def sbm_keys_def)
  have 2: "\<forall>k. sbm_has s k \<longrightarrow> sbm_get (sbm_setAll v s) k = v"
    using vals e by (simp add: sbm_setAll_def sbm_get_def)
  have 3: "\<not> sbm_isDirty (sbm_setAll v s)"
    by (simp add: sbm_setAll_def sbm_save_def sbm_isDirty_def)
  have 4: "sbm_saved (sbm_setAll v s) =
       (if sbm_isDirty s \<or> (\<exists>k\<in>set (sbm_keys s). sbm_get s k \<noteq> v)
        then sbm_saved s @ [sbm_entries (sbm_setAll v s)] else sbm_saved s)"
    using dirty saved by (simp add: sbm_setAll_def sbm_save_def)
  from 1 2 3 4 show ?thesis by blast
qed

text \<open>
  C5 as stated fails: a ledger loaded from \<open>{"dev-1": true}\<close> has one key and is
  clean; \<open>setAll(true)\<close> changes nothing, so \<open>save\<close> makes no call to the sink.
\<close>

theorem setAll_clean_all_true_no_save:
  "sbm_keys (new_StorageBackedMap (Some [(''dev-1'', Bool True)])) = [''dev-1'']
   \<and> sbm_saved (new_StorageBackedMap (Some [(''dev-1'', Bool True)])) = []
   \<and> sbm_saved (sbm_setAll (Bool True) (new_StorageBackedMap (Some [(''dev-1'', Bool True)]))) = []"
  by (simp add: loaded_dev1 sbm_keys_def sbm_setAll_def sbm_save_def sbm_set_def sbm_get_def)

theorem setAll_sets_all_saves_when_dirty_witness:
  "sbm_has (new_StorageBackedMap (Some [(''dev-1'', Bool False), (''dev-2'', Bool True)])) ''dev-1''
   \<and> sbm_get (sbm_setAll (Bool True) (new_StorageBackedMap (Some [(''dev-1'', Bool False), (''dev-2'', Bool True)]))) ''dev-1'' = Bool True
   \<and> sbm_saved (sbm_setAll (Bool True) (new_StorageBackedMap (Some [(''dev-1'', Bool False), (''dev-2'', Bool True)])))
       = [ [(''dev-1'', Bool True), (''dev-2'', Bool True)] ]"
  using setAll_sets_all_saves_when_dirty [of "Bool True" "new_StorageBackedMap (Some [(''dev-1'', Bool False), (''dev-2'', Bool True)])"]
  by (simp add: new_StorageBackedMap_def object_entries_def is_array_index_def is_digit_def sbm_set_def sbm_get_def
       sbm_has_def sbm_setAll_def sbm_save_def sbm_keys_def sbm_isDirty_def)

section \<open>Properties of the capability grouper\<close>

lemma split_on_ne: "split_on sep s \<noteq> []"
  by (induction s) (auto split: list.splits)

lemma split_on_hd: "hd (split_on sep s) = takeWhile (\<lambda>c. c \<noteq> sep) s"
  by (induction s) (auto split: list.splits simp: split_on_ne)

lemma split_on_tl: "tl (split_on sep s) = (case dropWhile (\<lambda>c. c \<noteq> sep) s of [] \<Rightarrow> [] | _ # r \<Rightarrow> split_on sep r)"
proof (induction s)
  case Nil
  then show ?case by simp
next
  case (Cons a s)
  obtain w ws where sp: "split_on sep s = w # ws"
    using split_on_ne [of sep s] by (cases "split_on sep s") auto
  with Cons show ?case by simp
qed

lemma split_capability_eq:
  "split_capability cap =
     (takeWhile (\<lambda>c. c \<noteq> CHR ''.'') cap,
      takeWhile (\<lambda>c. c \<noteq> CHR ''.'') (drop 1 (dropWhile (\<lambda>c. c \<noteq> CHR ''.'') cap)))"
proof -
  obtain w ws where sp: "split_on CHR ''.'' cap = w # ws"
    using split_on_ne [of "CHR ''.''" cap] by (cases "split_on CHR ''.'' cap") auto
  have w: "w = takeWhile (\<lambda>c. c \<noteq> CHR ''.'') cap"
    using split_on_hd [of "CHR ''.''" cap] sp by simp
  have ws: "ws = (case dropWhile (\<lambda>c. c \<noteq> CHR ''.'') cap of [] \<Rightarrow> [] | _ # r \<Rightarrow> split_on CHR ''.'' r)"
    using split_on_tl [of "CHR ''.''" cap] sp by simp
  show ?thesis
  proof (cases "dropWhile (\<lambda>c. c \<noteq> CHR ''.'') cap")
    case Nil
    with sp w ws show ?thesis
      by (simp add: split_capability_def del: dropWhile_eq_Nil_conv)
  next
    case (Cons d r)
    obtain g gs where r: "split_on CHR ''.'' r = g # gs"
      using split_on_ne [of "CHR ''.''" r] by (cases "split_on CHR ''.'' r") auto
    have "g = takeWhile (\<lambda>c. c \<noteq> CHR ''.'') r"
      using split_on_hd [of "CHR ''.''" r] r by simp
    with sp w ws Cons r show ?thesis by (simp add: split_capability_def)
  qed
qed

lemma group_step_Inr:
  assumes "group_step acc cap = Inr acc'" and "''__proto__'' \<notin> fst ` set acc"
  shows "map_of acc' g =
           (if snd (split_capability cap) = g
            then Some ((case map_of acc g of None \<Rightarrow> [] | Some ys \<Rightarrow> ys) @ [fst (split_capability cap)])
            else map_of acc g)"
    and "''__proto__'' \<notin> fst ` set acc'"
proof -
  obtain b gr where sc: "split_capability cap = (b, gr)" by (cases "split_capability cap")
  have np: "gr \<noteq> ''__proto__''"
  proof
    assume e: "gr = ''__proto__''"
    with assms(2) have "map_of acc gr = None" by (simp add: map_of_eq_None_iff)
    with assms(1) sc e show False
      by (simp add: group_step_def object_prototype_keys_def)
  qed
  from assms(1) sc np have acc': "acc' = AList.update gr ((case map_of acc gr of None \<Rightarrow> [] | Some ys \<Rightarrow> ys) @ [b]) acc"
    by (auto simp: group_step_def obj_set_def split: option.splits if_splits)
  show "map_of acc' g =
           (if snd (split_capability cap) = g
            then Some ((case map_of acc g of None \<Rightarrow> [] | Some ys \<Rightarrow> ys) @ [fst (split_capability cap)])
            else map_of acc g)"
    using sc by (auto simp: acc' update_conv')
  show "''__proto__'' \<notin> fst ` set acc'"
    using assms(2) np by (simp add: acc' dom_update)
qed

lemma reduce_group_step:
  "reduce_err group_step caps acc = Inr groups \<Longrightarrow> ''__proto__'' \<notin> fst ` set acc \<Longrightarrow>
     map_of groups g =
       (case map_of acc g of
          None \<Rightarrow> if grouped caps g = [] then None else Some (grouped caps g)
        | Some ys \<Rightarrow> Some (ys @ grouped caps g))"
proof (induction caps arbitrary: acc)
  case Nil
  then show ?case by (simp add: grouped_def split: option.splits)
next
  case (Cons cap caps)
  from Cons.prems(1) obtain acc' where st: "group_step acc cap = Inr acc'"
    and rest: "reduce_err group_step caps acc' = Inr groups"
    by (auto split: sum.splits)
  note gs = group_step_Inr [OF st Cons.prems(2)]
  from Cons.IH [OF rest gs(2)] gs(1) [of g] show ?case
    by (auto simp: grouped_def split: option.splits)
qed

lemma takeWhile_no_dot: "CHR ''.'' \<notin> set r \<Longrightarrow> takeWhile (\<lambda>c. c \<noteq> CHR ''.'') r = r"
  by (induction r) auto

lemma snd_split_capability:
  "snd (split_capability cap) =
     takeWhile (\<lambda>c. c \<noteq> CHR ''.'') (drop 1 (dropWhile (\<lambda>c. c \<noteq> CHR ''.'') cap))"
  by (simp only: split_capability_eq snd_conv)

lemma groupCapabilities_groups:
  assumes "groupCapabilities dev = Inr groups"
  shows "map_of groups g =
           (if grouped (visible_capabilities dev) g = [] then None
            else Some (grouped (visible_capabilities dev) g))"
proof -
  have r: "reduce_err group_step (visible_capabilities dev) [] = Inr groups"
    using assms by (simp add: groupCapabilities_def)
  have "''__proto__'' \<notin> fst ` set ([] :: string list jsobj)" by simp
  from reduce_group_step [OF r this, of g] show ?thesis by simp
qed

text \<open>
  C3, as the code has it. \<open>cap.split('.')\<close> splits on every \<open>.\<close> and the
  destructuring keeps the first two pieces: the base capability is the text before the
  first \<open>.\<close>, the group key is the text between the first \<open>.\<close> and the second
  (the empty string when there is no \<open>.\<close>), and what follows a second \<open>.\<close> is
  dropped. For an identifier with at most one \<open>.\<close> the group key is the whole
  remainder. When \<open>groupCapabilities\<close> returns, each group holds, in order, the base
  capabilities of the visible identifiers with that group key.
\<close>

theorem groupCapabilities_splits_on_every_dot:
  "split_capability cap =
     (takeWhile (\<lambda>c. c \<noteq> CHR ''.'') cap,
      takeWhile (\<lambda>c. c \<noteq> CHR ''.'') (drop 1 (dropWhile (\<lambda>c. c \<noteq> CHR ''.'') cap)))
   \<and> (CHR ''.'' \<notin> set (drop 1 (dropWhile (\<lambda>c. c \<noteq> CHR ''.'') cap))
        \<longrightarrow> snd (split_capability cap) = drop 1 (dropWhile (\<lambda>c. c \<noteq> CHR ''.'') cap))
   \<and> (groupCapabilities dev = Inr groups
        \<longrightarrow> map_of groups g =
              (if grouped (visible_capabilities dev) g = [] then None
               else Some (grouped (visible_capabilities dev) g)))"
proof -
  have a: "split_capability cap =
     (takeWhile (\<lambda>c. c \<noteq> CHR ''.'') cap,
      takeWhile (\<lambda>c. c \<noteq> CHR ''.'') (drop 1 (dropWhile (\<lambda>c. c \<noteq> CHR ''.'') cap)))"
    by (rule split_capability_eq)
  have b: "CHR ''.'' \<notin> set (drop 1 (dropWhile (\<lambda>c. c \<noteq> CHR ''.'') cap))
        \<longrightarrow> snd (split_capability cap) = drop 1 (dropWhile (\<lambda>c. c \<noteq> CHR ''.'') cap)"
  proof
    assume "CHR ''.'' \<notin> set (drop 1 (dropWhile (\<lambda>c. c \<noteq> CHR ''.'') cap))"
    then have "takeWhile (\<lambda>c. c \<noteq> CHR ''.'') (drop 1 (dropWhile (\<lambda>c. c \<noteq> CHR ''.'') cap))
                 = drop 1 (dropWhile (\<lambda>c. c \<noteq> CHR ''.'') cap)"
      by (rule takeWhile_no_dot)
    then show "snd (split_capability cap) = drop 1 (dropWhile (\<lambda>c. c \<noteq> CHR ''.'') cap)"
      by (simp only: snd_split_capability)
  qed
  have c: "groupCapabilities dev = Inr groups
        \<longrightarrow> map_of groups g =
              (if grouped (visible_capabilities dev) g = [] then None
               else Some (grouped (visible_capabilities dev) g))"
    by (rule impI) (rule groupCapabilities_groups)
  from a b c show ?thesis
    by (intro conjI)
qed

text \<open>
  C3 as stated fails on an identifier with two dots: the group key of
  \<open>onoff.left.top\<close> is \<open>left\<close>, not the remainder \<open>left.top\<close>.
\<close>

theorem second_dot_cuts_group_key:
  "split_capability ''onoff.left.top'' = (''onoff'', ''left'')
   \<and> drop 1 (dropWhile (\<lambda>c. c \<noteq> CHR ''.'') ''onoff.left.top'') = ''left.top''
   \<and> groupCapabilities (ex_device\<lparr>dev_ui_components := Some [ [''onoff.left.top''] ]\<rparr>)
       = Inr [(''left'', [''onoff''])]"
  by (simp add: split_capability_def groupCapabilities_def visible_capabilities_def
        group_step_def obj_set_def object_prototype_keys_def)

theorem groupCapabilities_splits_on_every_dot_witness:
  "CHR ''.'' \<notin> set (drop 1 (dropWhile (\<lambda>c. c \<noteq> CHR ''.'') ''dim.1''))
   \<and> split_capability ''dim.1'' = (''dim'', ''1'')
   \<and> groupCapabilities
         (ex_device\<lparr>dev_ui_components := Some [ [''onoff'', ''dim.1''], [''onoff.1'', ''x.y.z''] ]\<rparr>)
       = Inr [('''', [''onoff'']), (''1'', [''dim'', ''onoff'']), (''y'', [''x''])]
   \<and> map_of [('''', [''onoff'']), (''1'', [''dim'', ''onoff'']), (''y'', [''x''])] ''1''
       = Some (grouped [''onoff'', ''dim.1'', ''onoff.1'', ''x.y.z''] ''1'')"
  using groupCapabilities_splits_on_every_dot
          [of "''dim.1''"
              "ex_device\<lparr>dev_ui_components := Some [ [''onoff'', ''dim.1''], [''onoff.1'', ''x.y.z''] ]\<rparr>"
              "[('''', [''onoff'']), (''1'', [''dim'', ''onoff'']), (''y'', [''x''])]" "''1''"]
  by (simp add: split_capability_def groupCapabilities_def visible_capabilities_def
        group_step_def obj_set_def object_prototype_keys_def grouped_def)

lemma distinct_fst_insort:
  "distinct (map fst (insort_key f x xs)) = (fst x \<notin> fst ` set xs \<and> distinct (map fst xs))"
  by (induction xs) (auto simp: set_insort_key)

lemma distinct_fst_sort: "distinct (map fst (sort_key f xs)) = distinct (map fst xs)"
  by (induction xs) (simp_all add: distinct_fst_insort)

lemma object_entries_set: "set (object_entries obj) = set obj"
  by (auto simp: object_entries_def)

lemma object_keys_set: "set (object_keys obj) = fst ` set obj"
  by (simp add: object_keys_def object_entries_set)

lemma object_keys_distinct:
  assumes "distinct (map fst obj)"
  shows "distinct (object_keys obj)"
proof -
  have a: "distinct (map fst (filter (\<lambda>p. is_array_index (fst p)) obj))"
    using assms by (rule distinct_map_filter)
  have b: "distinct (map fst (filter (\<lambda>p. \<not> is_array_index (fst p)) obj))"
    using assms by (rule distinct_map_filter)
  show ?thesis
    unfolding object_keys_def object_entries_def
    using a b by (auto simp: distinct_fst_sort)
qed

lemma seen_fold_keys:
  "''__proto__'' \<notin> set kept \<Longrightarrow>
     fst ` set (fold (\<lambda>cap. obj_set cap True) kept seen) = fst ` set seen \<union> set kept"
  by (induction kept arbitrary: seen) (auto simp: obj_set_def dom_update)

lemma has_in_proto: "has_in ''__proto__'' seen"
  by (simp add: has_in_def object_prototype_keys_def)

lemma has_in_after:
  "has_in c (fold (\<lambda>cap. obj_set cap True) (filter (\<lambda>cap. \<not> has_in cap seen) caps) seen)
     \<longleftrightarrow> has_in c seen \<or> c \<in> set caps"
proof -
  have "''__proto__'' \<notin> set (filter (\<lambda>cap. \<not> has_in cap seen) caps)"
    by (simp add: has_in_proto)
  from seen_fold_keys [OF this] show ?thesis
    by (auto simp: has_in_def)
qed

lemma update_absent: "k \<notin> fst ` set al \<Longrightarrow> AList.update k v al = al @ [(k, v)]"
  by (induction al) auto

lemma flatten_step_eq:
  "g \<noteq> ''__proto__'' \<Longrightarrow> g \<notin> fst ` set out \<Longrightarrow>
   flatten_step groups (out, seen) g =
     (out @ [(g, filter (\<lambda>cap. \<not> has_in cap seen) (own_caps groups g))],
      fold (\<lambda>cap. obj_set cap True) (filter (\<lambda>cap. \<not> has_in cap seen) (own_caps groups g)) seen)"
  by (simp add: flatten_step_def obj_set_def Let_def update_absent)

lemma flatten_foldl_mem:
  "distinct ks \<Longrightarrow> ''__proto__'' \<notin> set ks \<Longrightarrow> set ks \<inter> fst ` set out = {} \<Longrightarrow>
   (g, caps) \<in> set (fst (foldl (flatten_step groups) (out, seen) ks)) \<longleftrightarrow>
     (g, caps) \<in> set out \<or>
     (\<exists>pre post. ks = pre @ g # post \<and>
        caps = filter (\<lambda>c. \<not> has_in c seen \<and> (\<forall>k\<in>set pre. c \<notin> set (own_caps groups k)))
                 (own_caps groups g))"
proof (induction ks arbitrary: out seen)
  case Nil
  then show ?case by simp
next
  case (Cons k ks)
  let ?kept = "filter (\<lambda>cap. \<not> has_in cap seen) (own_caps groups k)"
  let ?out = "out @ [(k, ?kept)]"
  let ?seen = "fold (\<lambda>cap. obj_set cap True) ?kept seen"
  have st: "flatten_step groups (out, seen) k = (?out, ?seen)"
    using Cons.prems by (intro flatten_step_eq) auto
  have d: "distinct ks" "''__proto__'' \<notin> set ks" "set ks \<inter> fst ` set ?out = {}"
    using Cons.prems by auto
  have hs: "\<And>c. has_in c ?seen \<longleftrightarrow> has_in c seen \<or> c \<in> set (own_caps groups k)"
    by (rule has_in_after)
  have "(g, caps) \<in> set (fst (foldl (flatten_step groups) (out, seen) (k # ks))) \<longleftrightarrow>
        (g, caps) \<in> set (fst (foldl (flatten_step groups) (?out, ?seen) ks))"
    by (simp add: st)
  also have "\<dots> \<longleftrightarrow> (g, caps) \<in> set ?out \<or>
     (\<exists>pre post. ks = pre @ g # post \<and>
        caps = filter (\<lambda>c. \<not> has_in c ?seen \<and> (\<forall>k\<in>set pre. c \<notin> set (own_caps groups k)))
                 (own_caps groups g))"
    by (rule Cons.IH [OF d])
  also have "\<dots> \<longleftrightarrow> (g, caps) \<in> set out \<or>
     (\<exists>pre post. k # ks = pre @ g # post \<and>
        caps = filter (\<lambda>c. \<not> has_in c seen \<and> (\<forall>k\<in>set pre. c \<notin> set (own_caps groups k)))
                 (own_caps groups g))"
    (is "?L \<longleftrightarrow> ?R")
  proof
    assume ?L
    then consider "(g, caps) \<in> set out" | "g = k" "caps = ?kept"
      | pre post where "ks = pre @ g # post"
         "caps = filter (\<lambda>c. \<not> has_in c ?seen \<and> (\<forall>k\<in>set pre. c \<notin> set (own_caps groups k)))
                 (own_caps groups g)"
      by auto
    then show ?R
    proof cases
      case 1
      then show ?thesis by simp
    next
      case 2
      then have "k # ks = [] @ g # ks \<and>
        caps = filter (\<lambda>c. \<not> has_in c seen \<and> (\<forall>k\<in>set []. c \<notin> set (own_caps groups k)))
                 (own_caps groups g)"
        by simp
      then show ?thesis by blast
    next
      case 3
      then have "k # ks = (k # pre) @ g # post \<and>
        caps = filter (\<lambda>c. \<not> has_in c seen \<and> (\<forall>k\<in>set (k # pre). c \<notin> set (own_caps groups k)))
                 (own_caps groups g)"
        by (auto simp: hs intro: filter_cong)
      then show ?thesis by blast
    qed
  next
    assume ?R
    then consider "(g, caps) \<in> set out"
      | pre post where "k # ks = pre @ g # post"
         "caps = filter (\<lambda>c. \<not> has_in c seen \<and> (\<forall>k\<in>set pre. c \<notin> set (own_caps groups k)))
                 (own_caps groups g)"
      by auto
    then show ?L
    proof cases
      case 1
      then show ?thesis by simp
    next
      case 2
      show ?thesis
      proof (cases pre)
        case Nil
        with 2 show ?thesis by simp
      next
        case (Cons a pre')
        with 2 have ks: "ks = pre' @ g # post" and a: "a = k" by simp_all
        have "caps = filter (\<lambda>c. \<not> has_in c ?seen \<and> (\<forall>k\<in>set pre'. c \<notin> set (own_caps groups k)))
                 (own_caps groups g)"
          using 2(2) Cons a by (auto simp: hs intro: filter_cong)
        with ks show ?thesis by blast
      qed
    qed
  qed
  finally show ?case .
qed

lemma flattenGroups_mem:
  assumes "distinct (map fst groups)" and "''__proto__'' \<notin> fst ` set groups"
  shows "(g, caps) \<in> set (flattenGroups groups) \<longleftrightarrow>
     (\<exists>pre post. sort_key length (object_keys groups) = pre @ g # post \<and>
        caps = filter (\<lambda>c. c \<notin> set object_prototype_keys
                       \<and> (\<forall>k\<in>set pre. c \<notin> set (own_caps groups k)))
                 (own_caps groups g))"
proof -
  let ?ks = "sort_key length (object_keys groups)"
  have "distinct ?ks" using assms(1) by (simp add: object_keys_distinct)
  moreover have "''__proto__'' \<notin> set ?ks" using assms(2) by (simp add: object_keys_set)
  moreover have "set ?ks \<inter> fst ` set ([] :: string list jsobj) = {}" by simp
  ultimately show ?thesis
    unfolding flattenGroups_def
    by (subst flatten_foldl_mem) (simp_all add: has_in_def)
qed

lemma own_caps_mem:
  "distinct (map fst groups) \<Longrightarrow> (g, caps) \<in> set groups \<Longrightarrow> own_caps groups g = caps"
  by (simp add: own_caps_def)

lemma first_split_unique:
  "pre @ g # post = pre' @ g' # post' \<Longrightarrow> g' \<notin> set pre \<Longrightarrow> g \<notin> set pre' \<Longrightarrow> pre = pre'"
proof (induction pre arbitrary: pre')
  case Nil
  then show ?case by (cases pre') auto
next
  case (Cons a p)
  then show ?case by (cases pre') auto
qed

text \<open>
  On every other input \<open>flattenGroups\<close> does partition: in a group mapping with no own
  key \<open>__proto__\<close>, a capability that is not named like a property of
  \<open>Object.prototype\<close> is kept in exactly one output list, that of a group which
  contains it and whose key is no longer than the key of any group containing it.
\<close>

lemma flattenGroups_unique_shortest:
  assumes dist: "distinct (map fst groups)" and np: "''__proto__'' \<notin> fst ` set groups"
    and g0: "(g0, caps0) \<in> set groups" and cap0: "cap \<in> set caps0"
    and capnp: "cap \<notin> set object_prototype_keys"
  shows "\<exists>g caps. (g, caps) \<in> set (flattenGroups groups) \<and> cap \<in> set caps
           \<and> (\<forall>g' caps'. (g', caps') \<in> set (flattenGroups groups) \<and> cap \<in> set caps'
                  \<longrightarrow> g' = g \<and> caps' = caps)
           \<and> (\<exists>caps\<^sub>i. (g, caps\<^sub>i) \<in> set groups \<and> cap \<in> set caps\<^sub>i)
           \<and> (\<forall>g' caps'. (g', caps') \<in> set groups \<and> cap \<in> set caps' \<longrightarrow> length g \<le> length g')"
proof -
  let ?ks = "sort_key length (object_keys groups)"
  let ?P = "\<lambda>k. cap \<in> set (own_caps groups k)"
  have dks: "distinct ?ks" using dist by (simp add: object_keys_distinct)
  have sks: "set ?ks = fst ` set groups" by (simp add: object_keys_set)
  have srt: "sorted (map length ?ks)" by simp
  have "g0 \<in> set ?ks" using g0 sks by force
  moreover have "?P g0" using own_caps_mem [OF dist g0] cap0 by simp
  ultimately have ex: "\<exists>k\<in>set ?ks. ?P k" by blast
  obtain pre g post where ks: "?ks = pre @ g # post" and Pg: "?P g"
    and first: "\<forall>k\<in>set pre. \<not> ?P k"
    using split_list_first_prop [OF ex] by blast
  let ?caps = "filter (\<lambda>c. c \<notin> set object_prototype_keys
                       \<and> (\<forall>k\<in>set pre. c \<notin> set (own_caps groups k)))
                 (own_caps groups g)"
  have mem: "(g, ?caps) \<in> set (flattenGroups groups)"
    using ks by (subst flattenGroups_mem [OF dist np]) blast
  have capin: "cap \<in> set ?caps"
    using Pg first capnp by simp
  have uniq: "g' = g \<and> caps' = ?caps"
    if m: "(g', caps') \<in> set (flattenGroups groups)" and c: "cap \<in> set caps'" for g' caps'
  proof -
    from m obtain pre' post' where ks': "?ks = pre' @ g' # post'"
      and caps': "caps' = filter (\<lambda>c. c \<notin> set object_prototype_keys
                       \<and> (\<forall>k\<in>set pre'. c \<notin> set (own_caps groups k)))
                 (own_caps groups g')"
      by (subst (asm) flattenGroups_mem [OF dist np]) blast
    from c caps' have Pg': "?P g'" and first': "\<forall>k\<in>set pre'. \<not> ?P k" by auto
    have "g' \<notin> set pre" using first Pg' by blast
    moreover have "g \<notin> set pre'" using first' Pg by blast
    ultimately have "pre = pre'"
      using ks ks' by (intro first_split_unique [of pre g post pre' g' post']) simp_all
    with ks ks' caps' show ?thesis by simp
  qed
  have gin: "\<exists>caps\<^sub>i. (g, caps\<^sub>i) \<in> set groups \<and> cap \<in> set caps\<^sub>i"
  proof -
    have "g \<in> fst ` set groups" using ks sks by (metis in_set_conv_decomp)
    then obtain ci where ci: "(g, ci) \<in> set groups" by force
    with own_caps_mem [OF dist ci] Pg show ?thesis by auto
  qed
  have shortest: "length g \<le> length g'"
    if m: "(g', caps') \<in> set groups" and c: "cap \<in> set caps'" for g' caps'
  proof -
    have Pg': "?P g'" using own_caps_mem [OF dist m] c by simp
    have "g' \<in> set ?ks" using m sks by force
    moreover have "g' \<notin> set pre" using first Pg' by blast
    ultimately have "g' = g \<or> g' \<in> set post" using ks by auto
    moreover have "\<forall>x\<in>set post. length g \<le> length x"
      using srt ks by (simp add: sorted_append)
    ultimately show ?thesis by auto
  qed
  from mem capin uniq gin shortest show ?thesis by blast
qed

text \<open>
  C1 at a capability named like a property of \<open>Object.prototype\<close>. A device whose
  visible capabilities are \<open>toString\<close> and \<open>onoff\<close> is grouped as
  \<open>{ "": ["toString", "onoff"] }\<close>. In \<open>flattenGroups\<close> the test
  \<open>cap in acc.seen\<close> is true for \<open>toString\<close> on the empty \<open>seen\<close> object, so the
  capability is filtered out of its only group and appears in no output list.
\<close>

theorem flattenGroups_drops_prototype_named:
  "groupCapabilities (ex_device\<lparr>dev_ui_components := Some [ [''toString'', ''onoff''] ]\<rparr>)
     = Inr [('''', [''toString'', ''onoff''])]
   \<and> flattenGroups [('''', [''toString'', ''onoff''])] = [('''', [''onoff''])]"
  by (simp add: groupCapabilities_def visible_capabilities_def group_step_def
        split_capability_def flattenGroups_def object_keys_def object_entries_def
        is_array_index_def flatten_step_def own_caps_def has_in_def
        object_prototype_keys_def obj_set_def)
section \<open>Properties of the binder and of the handlers\<close>

lemmas ex_defs = ex_handle_def ex_env_def ex_device_def ex_map_def ex_dim_def ex_onoff_def

lemmas binder_defs = new_MappedDevice_def accessorize_def createAccessory_def
  groupCapabilities_def visible_capabilities_def group_step_def split_capability_def
  obj_set_def object_prototype_keys_def bind_map_def bind_group_def bind_capability_def
  resolve_service_def bind_characteristicMap_def bind_characteristic_def
  install_handlers_def on_bound_def on_service_def on_characteristic_def
  getCharacteristic_def getService_def addService_def adaptive_lighting_def logs_def
  obj_get_def object_entries_def is_array_index_def is_digit_def new_characteristic_def
  strip_app_prefix_def debounce_def Let_def flattenGroups_def

lemmas event_defs = deliver_def update_timer_def cleanup_def destroy_def debounced_call_def
  debounced_timer_def run_update_def update_characteristic_def updateCapability_def
  cap_value_def write_characteristic_def write_timer_def run_onSet_def set_onSet_def
  find_characteristic_def read_characteristic_def run_onGet_def missing_value_def
  on_service_def on_characteristic_def ex_percent_def ex_permille_def ex_same_def

lemma ex_accessory_eq:
  "ex_accessory =
     \<lparr>a_displayName = ''Lamp'', a_id = ''dev-1'', a_category = Some 5,
      a_services =
        [\<lparr>s_type = ''AccessoryInformation'', s_displayName = ''Lamp'', s_subtype = [],
          s_characteristics =
            [\<lparr>c_klass = ''Manufacturer'', c_value = Str ''com.example'', c_onGet = None,
              c_onSet = None, c_change = 0\<rparr>,
             \<lparr>c_klass = ''Model'', c_value = Str ''Lamp (Kitchen)'', c_onGet = None,
              c_onSet = None, c_change = 0\<rparr>,
             \<lparr>c_klass = ''SerialNumber'', c_value = Str ''dev-1'', c_onGet = None,
              c_onSet = None, c_change = 0\<rparr>]\<rparr>,
         \<lparr>s_type = ''Lightbulb'', s_displayName = ''Lamp'', s_subtype = ''default'',
          s_characteristics =
            [\<lparr>c_klass = ''On'', c_value = Undefined,
              c_onGet = Some \<lparr>gh_capability = ''onoff'', gh_getter = ex_same,
                              gh_service = Suc 0, gh_klass = ''On''\<rparr>,
              c_onSet = Some \<lparr>d_fn = \<lparr>sh_capability = ''onoff'', sh_setter = ex_same,
                                     sh_service = Suc 0, sh_klass = ''On''\<rparr>,
                              d_wait = Num 0, d_immediate = True, d_pending = None\<rparr>,
              c_change = 0\<rparr>,
             \<lparr>c_klass = ''Brightness'', c_value = Undefined,
              c_onGet = Some \<lparr>gh_capability = ''dim'', gh_getter = ex_percent,
                              gh_service = Suc 0, gh_klass = ''Brightness''\<rparr>,
              c_onSet = Some \<lparr>d_fn = \<lparr>sh_capability = ''dim'', sh_setter = ex_permille,
                                     sh_service = Suc 0, sh_klass = ''Brightness''\<rparr>,
                              d_wait = Num 300, d_immediate = False, d_pending = None\<rparr>,
              c_change = 0\<rparr>,
             \<lparr>c_klass = ''ColorTemperature'', c_value = Undefined, c_onGet = None,
              c_onSet = None, c_change = 0\<rparr>]\<rparr>],
      a_controllers = [Suc 0]\<rparr>"
  by (simp add: ex_accessory_def ex_defs binder_defs)

lemma ex_bound_eq:
  "ex_bound =
     \<lparr>h_device = ex_device, h_class = ''light'', h_capabilities = [''onoff'', ''dim''],
      h_category = Some 5, h_maps = [ex_map], h_accessory = Some ex_accessory,
      h_listeners =
        [\<lparr>l_capability = ''onoff'',
          l_callback = \<lparr>d_fn = \<lparr>cb_capability = ''onoff'', cb_getter = Some ex_same,
                               cb_service = Suc 0, cb_characteristics = [''On'']\<rparr>,
                        d_wait = Num 0, d_immediate = True, d_pending = None\<rparr>,
          l_destroyed = False\<rparr>,
         \<lparr>l_capability = ''dim'',
          l_callback = \<lparr>d_fn = \<lparr>cb_capability = ''dim'', cb_getter = Some ex_percent,
                               cb_service = Suc 0, cb_characteristics = [''Brightness'']\<rparr>,
                        d_wait = Num 300, d_immediate = False, d_pending = None\<rparr>,
          l_destroyed = False\<rparr>],
      h_log =
        [LogMap ''light'', LogGroup ''DEFAULT'' [''onoff'', ''dim''],
         LogNewService ''Lightbulb'', LogBinding ''onoff'' False ''On'' (Num 0),
         LogBinding ''dim'' False ''Brightness'' (Num 300), LogAdaptiveEnabled],
      h_requests = [], h_NO_VALUE = Sym ''NO_VALUE''\<rparr>"
  by (simp add: ex_bound_def ex_accessory_eq ex_defs binder_defs)

lemma ex_accessorize:
  "fst (accessorize ex_handle) = Inr ex_accessory"
  by (simp add: ex_accessory_eq ex_defs binder_defs)

lemma accessorize_holds_accessory:
  "\<exists>a. h_accessory (snd (accessorize h)) = Some a
       \<and> (\<forall>b. fst (accessorize h) = Inr b \<longrightarrow> b = a)"
proof (cases "h_accessory h")
  case (Some a)
  then show ?thesis by (simp add: accessorize_def)
next
  case None
  show ?thesis
  proof (cases "groupCapabilities (h_device h)")
    case (Inl e)
    with None show ?thesis by (simp add: accessorize_def Let_def)
  next
    case (Inr groups)
    obtain r bs where fe: "for_each (bind_map (h_device h) groups) (h_maps h)
                       \<lparr>bs_accessory = createAccessory h, bs_listeners = h_listeners h,
                        bs_log = h_log h\<rparr> = (r, bs)"
      by (cases "for_each (bind_map (h_device h) groups) (h_maps h)
                       \<lparr>bs_accessory = createAccessory h, bs_listeners = h_listeners h,
                        bs_log = h_log h\<rparr>")
    with None Inr show ?thesis
      by (cases r) (simp_all add: accessorize_def Let_def)
  qed
qed

text \<open>
  C2. A handle that holds an accessory returns it from \<open>accessorize()\<close> and is left as it
  was, with its services, characteristics, subscriptions and log. After any call the
  handle holds an accessory, so a second call changes nothing and returns what the first
  call returned.
\<close>

theorem accessorize_idempotent:
  "(h_accessory h = Some a \<longrightarrow> accessorize h = (Inr a, h))
   \<and> snd (accessorize (snd (accessorize h))) = snd (accessorize h)
   \<and> (fst (accessorize h) = Inr a \<longrightarrow> fst (accessorize (snd (accessorize h))) = Inr a)"
proof -
  have 1: "h_accessory h = Some a \<longrightarrow> accessorize h = (Inr a, h)"
    by (simp add: accessorize_def)
  obtain a' where a': "h_accessory (snd (accessorize h)) = Some a'"
    and same: "\<forall>b. fst (accessorize h) = Inr b \<longrightarrow> b = a'"
    using accessorize_holds_accessory [of h] by blast
  have again: "accessorize (snd (accessorize h)) = (Inr a', snd (accessorize h))"
    using a' by (simp add: accessorize_def)
  have 2: "snd (accessorize (snd (accessorize h))) = snd (accessorize h)"
    using again by simp
  have 3: "fst (accessorize h) = Inr a \<longrightarrow> fst (accessorize (snd (accessorize h))) = Inr a"
    using again same by simp
  from 1 2 3 show ?thesis
    by (intro conjI)
qed

theorem accessorize_idempotent_witness:
  "h_accessory ex_bound = Some ex_accessory
   \<and> accessorize ex_bound = (Inr ex_accessory, ex_bound)
   \<and> fst (accessorize ex_handle) = Inr ex_accessory
   \<and> fst (accessorize (snd (accessorize ex_handle))) = Inr ex_accessory
   \<and> map s_type (a_services ex_accessory) = [''AccessoryInformation'', ''Lightbulb'']
   \<and> map l_capability (h_listeners (snd (accessorize ex_bound))) = [''onoff'', ''dim'']"
proof -
  have e: "h_accessory ex_bound = Some ex_accessory"
    by (simp add: ex_bound_eq)
  have s: "map s_type (a_services ex_accessory) = [''AccessoryInformation'', ''Lightbulb'']"
    by (simp add: ex_accessory_eq)
  have l: "map l_capability (h_listeners ex_bound) = [''onoff'', ''dim'']"
    by (simp add: ex_bound_eq)
  from accessorize_idempotent [of ex_bound ex_accessory]
       accessorize_idempotent [of ex_handle ex_accessory] e s l ex_accessorize
  show ?thesis by (simp add: ex_bound_def)
qed

lemma find_klass_append:
  "find P (cs @ [x]) = (case find P cs of Some y \<Rightarrow> Some y | None \<Rightarrow> if P x then Some x else None)"
  by (induction cs) auto

lemma find_klass_map:
  assumes "\<And>c. c_klass (f c) = c_klass c"
  shows "find (\<lambda>c. c_klass c = k) (map (\<lambda>c. if c_klass c = k' then f c else c) cs) =
           (if k = k' then map_option f (find (\<lambda>c. c_klass c = k) cs)
            else find (\<lambda>c. c_klass c = k) cs)"
  using assms by (induction cs) auto

lemma find_klass_None: "find (\<lambda>c. c_klass c = k) cs = None \<longleftrightarrow> k \<notin> c_klass ` set cs"
  by (induction cs) auto

lemma find_getCharacteristic:
  "find (\<lambda>c. c_klass c = k)
     (if klass \<in> c_klass ` set cs then cs else cs @ [new_characteristic klass]) =
   (case find (\<lambda>c. c_klass c = k) cs of
      Some c \<Rightarrow> Some c
    | None \<Rightarrow> if k = klass then Some (new_characteristic klass) else None)"
proof (cases "klass \<in> c_klass ` set cs")
  case True
  then have "k = klass \<Longrightarrow> find (\<lambda>c. c_klass c = k) cs \<noteq> None"
    by (auto simp: find_None_iff)
  with True show ?thesis by (auto split: option.splits)
next
  case False
  then show ?thesis
    by (auto simp: find_klass_append new_characteristic_def split: option.splits)
qed

lemma install_handlers_klass:
  "c_klass (install_handlers m cap isTrigger getter setter t imm svc klass c) = c_klass c"
  by (simp add: install_handlers_def Let_def split: option.splits)

lemma bind_characteristic_services:
  "length (a_services (bs_accessory (bind_characteristic m dev cap isTrigger getter setter t imm svc klass bs)))
     = length (a_services (bs_accessory bs))"
  by (simp add: bind_characteristic_def on_bound_def on_service_def logs_def)

lemma bind_characteristic_find:
  assumes "svc < length (a_services (bs_accessory bs))"
  shows "find_characteristic svc k
           (bs_accessory (bind_characteristic m dev cap isTrigger getter setter t imm svc klass bs)) =
         (if k = klass
          then Some (install_handlers m cap isTrigger getter setter t imm svc klass
                       (case find_characteristic svc klass (bs_accessory bs) of
                          None \<Rightarrow> new_characteristic klass | Some c \<Rightarrow> c))
          else find_characteristic svc k (bs_accessory bs))"
proof -
  let ?cs = "s_characteristics (a_services (bs_accessory bs) ! svc)"
  let ?f = "install_handlers m cap isTrigger getter setter t imm svc klass"
  have cs1: "s_characteristics (getCharacteristic klass (a_services (bs_accessory bs) ! svc)) =
          (if klass \<in> c_klass ` set ?cs then ?cs else ?cs @ [new_characteristic klass])"
    by (simp add: getCharacteristic_def)
  have "find_characteristic svc k
           (bs_accessory (bind_characteristic m dev cap isTrigger getter setter t imm svc klass bs)) =
        find (\<lambda>c. c_klass c = k) (map (\<lambda>c. if c_klass c = klass then ?f c else c)
           (if klass \<in> c_klass ` set ?cs then ?cs else ?cs @ [new_characteristic klass]))"
    using assms
    by (simp add: bind_characteristic_def on_bound_def on_service_def logs_def
          find_characteristic_def on_characteristic_def cs1)
  also have "\<dots> = (if k = klass
          then map_option ?f (find (\<lambda>c. c_klass c = k)
              (if klass \<in> c_klass ` set ?cs then ?cs else ?cs @ [new_characteristic klass]))
          else find (\<lambda>c. c_klass c = k)
              (if klass \<in> c_klass ` set ?cs then ?cs else ?cs @ [new_characteristic klass]))"
    by (rule find_klass_map) (rule install_handlers_klass)
  also have "\<dots> = (if k = klass
          then Some (?f (case find_characteristic svc klass (bs_accessory bs) of
                          None \<Rightarrow> new_characteristic klass | Some c \<Rightarrow> c))
          else find_characteristic svc k (bs_accessory bs))"
    using assms
    by (simp add: find_characteristic_def find_getCharacteristic split: option.splits)
  finally show ?thesis .
qed

lemma fold_bind_characteristic_services:
  "length (a_services (bs_accessory
       (fold (bind_characteristic m dev cap isTrigger getter setter t imm svc) ks bs)))
     = length (a_services (bs_accessory bs))"
  by (induction ks arbitrary: bs) (simp_all add: bind_characteristic_services)

lemma fold_bind_characteristic_other:
  assumes "svc < length (a_services (bs_accessory bs))" and "k \<notin> set ks"
  shows "find_characteristic svc k
           (bs_accessory (fold (bind_characteristic m dev cap isTrigger getter setter t imm svc) ks bs))
         = find_characteristic svc k (bs_accessory bs)"
  using assms
proof (induction ks arbitrary: bs)
  case Nil
  then show ?case by simp
next
  case (Cons a ks)
  let ?bs = "bind_characteristic m dev cap isTrigger getter setter t imm svc a bs"
  have "svc < length (a_services (bs_accessory ?bs))"
    using Cons.prems(1) by (simp add: bind_characteristic_services)
  moreover have "k \<notin> set ks" using Cons.prems(2) by simp
  ultimately have "find_characteristic svc k
           (bs_accessory (fold (bind_characteristic m dev cap isTrigger getter setter t imm svc) ks ?bs))
         = find_characteristic svc k (bs_accessory ?bs)"
    by (rule Cons.IH)
  also have "\<dots> = find_characteristic svc k (bs_accessory bs)"
    using Cons.prems by (simp add: bind_characteristic_find)
  finally show ?case by simp
qed

lemma fold_bind_characteristic_find:
  assumes "svc < length (a_services (bs_accessory bs))" and "klass \<in> set ks"
  shows "\<exists>c0. find_characteristic svc klass
           (bs_accessory (fold (bind_characteristic m dev cap isTrigger getter setter t imm svc) ks bs))
         = Some (install_handlers m cap isTrigger getter setter t imm svc klass c0)"
  using assms
proof (induction ks arbitrary: bs)
  case Nil
  then show ?case by simp
next
  case (Cons a ks)
  let ?bs = "bind_characteristic m dev cap isTrigger getter setter t imm svc a bs"
  have len: "svc < length (a_services (bs_accessory ?bs))"
    using Cons.prems(1) by (simp add: bind_characteristic_services)
  show ?case
  proof (cases "klass \<in> set ks")
    case True
    from Cons.IH [OF len True] show ?thesis by simp
  next
    case False
    with Cons.prems(2) have a: "a = klass" by simp
    have "find_characteristic svc klass
           (bs_accessory (fold (bind_characteristic m dev cap isTrigger getter setter t imm svc) ks ?bs))
         = find_characteristic svc klass (bs_accessory ?bs)"
      using len False by (rule fold_bind_characteristic_other)
    also have "\<dots> = Some (install_handlers m cap isTrigger getter setter t imm svc klass
                       (case find_characteristic svc klass (bs_accessory bs) of
                          None \<Rightarrow> new_characteristic klass | Some c \<Rightarrow> c))"
      using Cons.prems(1) a by (simp add: bind_characteristic_find)
    finally show ?thesis by auto
  qed
qed

lemma install_handlers_onGet:
  "c_onGet (install_handlers m cap False (Some g) setter t imm svc klass c) =
     Some \<lparr>gh_capability = cap, gh_getter = g, gh_service = svc, gh_klass = klass\<rparr>"
  by (simp add: install_handlers_def Let_def split: option.splits)

lemma install_handlers_onSet:
  "c_onSet (install_handlers m cap False getter (Some s) t imm svc klass c) =
     Some (debounce \<lparr>sh_capability = cap, sh_setter = s, sh_service = svc, sh_klass = klass\<rparr> t imm)"
  by (simp add: install_handlers_def Let_def split: option.splits)

lemma bind_characteristicMap_accessory:
  "bs_accessory (bind_characteristicMap m dev cap isTrigger svc cm bs) =
     bs_accessory (fold (bind_characteristic m dev cap isTrigger
         (nth_opt (b_get cm) (if cap \<in> set (dev_capabilities dev) then 0 else 1))
         (nth_opt (b_set cm) (if cap \<in> set (dev_capabilities dev) then 0 else 1))
         (if truthy (b_debounce cm) then b_debounce cm else Num 0)
         (\<not> truthy (b_debounce cm)) svc) (b_characteristics cm) bs)"
  by (simp add: bind_characteristicMap_def Let_def)

text \<open>
  C6. For a binding that is not a trigger and whose getter is \<open>g\<close>, every
  characteristic of the binding gets a read handler; on a read the handler fails with
  the \<open>missing capability value\<close> error when
  \<open>device.capabilitiesObj?.[capability]?.value\<close> is \<open>undefined\<close>, and otherwise
  returns what \<open>validateUserInput\<close> makes of the getter's result (or the getter's own
  error). No other value is put in place of a missing one.
\<close>

theorem read_handler_fails_on_missing_value:
  assumes "svc < length (a_services (bs_accessory bs))"
      and "klass \<in> set (b_characteristics cm)"
      and "nth_opt (b_get cm) (if capability \<in> set (dev_capabilities dev) then 0 else 1) = Some g"
  shows "\<exists>c gh. find_characteristic svc klass
                   (bs_accessory (bind_characteristicMap m dev capability False svc cm bs)) = Some c
           \<and> c_onGet c = Some gh
           \<and> (\<forall>h. run_onGet env h gh =
                 (if cap_value (h_device h) capability = Undefined
                  then Inl (missing_value capability)
                  else (case g (cap_value (h_device h) capability)
                               \<lparr>ctx_device = h_device h, ctx_service = svc,
                                ctx_capability = None, ctx_characteristic = klass\<rparr> of
                          Inl e \<Rightarrow> Inl e
                        | Inr v \<Rightarrow> Inr (env_validate env klass v))))"
proof -
  from fold_bind_characteristic_find [OF assms(1,2)]
  obtain c0 where f: "find_characteristic svc klass
      (bs_accessory (bind_characteristicMap m dev capability False svc cm bs))
      = Some (install_handlers m capability False (Some g)
         (nth_opt (b_set cm) (if capability \<in> set (dev_capabilities dev) then 0 else 1))
         (if truthy (b_debounce cm) then b_debounce cm else Num 0)
         (\<not> truthy (b_debounce cm)) svc klass c0)"
    unfolding bind_characteristicMap_accessory assms(3) by blast
  let ?gh = "\<lparr>gh_capability = capability, gh_getter = g, gh_service = svc, gh_klass = klass\<rparr>"
  have "\<forall>h. run_onGet env h ?gh =
                 (if cap_value (h_device h) capability = Undefined
                  then Inl (missing_value capability)
                  else (case g (cap_value (h_device h) capability)
                               \<lparr>ctx_device = h_device h, ctx_service = svc,
                                ctx_capability = None, ctx_characteristic = klass\<rparr> of
                          Inl e \<Rightarrow> Inl e
                        | Inr v \<Rightarrow> Inr (env_validate env klass v)))"
    by (simp add: run_onGet_def Let_def split: sum.splits)
  with f install_handlers_onGet show ?thesis by blast
qed

theorem read_handler_fails_on_missing_value_witness:
  "Suc 0 < length (a_services (bs_accessory
       \<lparr>bs_accessory = ex_accessory, bs_listeners = [], bs_log = []\<rparr>))
   \<and> ''Brightness'' \<in> set (b_characteristics ex_dim)
   \<and> nth_opt (b_get ex_dim) (if ''dim'' \<in> set (dev_capabilities ex_device) then 0 else 1)
       = Some ex_percent
   \<and> cap_value (h_device ex_bound) ''dim'' = Undefined
   \<and> read_characteristic ex_env 1 ''Brightness'' ex_bound = Inl (missing_value ''dim'')
   \<and> read_characteristic ex_env 1 ''Brightness''
         (ex_bound\<lparr>h_device := updateCapability ''dim'' (Num 400) ex_device\<rparr>) = Inr (Num 40)
   \<and> (\<exists>c gh. find_characteristic 1 ''Brightness''
                  (bs_accessory (bind_characteristicMap ex_map ex_device ''dim'' False 1 ex_dim
                     \<lparr>bs_accessory = ex_accessory, bs_listeners = [], bs_log = []\<rparr>)) = Some c
          \<and> c_onGet c = Some gh
          \<and> run_onGet ex_env ex_bound gh = Inl (missing_value ''dim'')
          \<and> run_onGet ex_env
                (ex_bound\<lparr>h_device := updateCapability ''dim'' (Num 400) ex_device\<rparr>) gh
              = Inr (Num 40))"
proof -
  have h1: "Suc 0 < length (a_services (bs_accessory
       \<lparr>bs_accessory = ex_accessory, bs_listeners = [], bs_log = []\<rparr>))"
    by (simp add: ex_accessory_eq)
  have h2: "''Brightness'' \<in> set (b_characteristics ex_dim)"
    by (simp add: ex_dim_def)
  have h3: "nth_opt (b_get ex_dim) (if ''dim'' \<in> set (dev_capabilities ex_device) then 0 else 1)
       = Some ex_percent"
    by (simp add: ex_dim_def ex_device_def)
  have v: "cap_value (h_device ex_bound) ''dim'' = Undefined"
    by (simp add: ex_bound_eq ex_device_def cap_value_def)
  have v': "cap_value (h_device (ex_bound\<lparr>h_device := updateCapability ''dim'' (Num 400) ex_device\<rparr>))
              ''dim'' = Num 400"
    by (simp add: ex_device_def cap_value_def updateCapability_def)
  have r1: "read_characteristic ex_env 1 ''Brightness'' ex_bound = Inl (missing_value ''dim'')"
    by (simp add: ex_bound_eq ex_accessory_eq ex_device_def ex_env_def event_defs)
  have r2: "read_characteristic ex_env 1 ''Brightness''
         (ex_bound\<lparr>h_device := updateCapability ''dim'' (Num 400) ex_device\<rparr>) = Inr (Num 40)"
    by (simp add: ex_bound_eq ex_accessory_eq ex_device_def ex_env_def event_defs)
  from read_handler_fails_on_missing_value [OF h1 h2 h3, of ex_map ex_env]
  obtain c gh where f: "find_characteristic (Suc 0) ''Brightness''
                  (bs_accessory (bind_characteristicMap ex_map ex_device ''dim'' False (Suc 0) ex_dim
                     \<lparr>bs_accessory = ex_accessory, bs_listeners = [], bs_log = []\<rparr>)) = Some c"
    and g: "c_onGet c = Some gh"
    and run: "\<forall>h. run_onGet ex_env h gh =
                 (if cap_value (h_device h) ''dim'' = Undefined
                  then Inl (missing_value ''dim'')
                  else (case ex_percent (cap_value (h_device h) ''dim'')
                               \<lparr>ctx_device = h_device h, ctx_service = Suc 0,
                                ctx_capability = None, ctx_characteristic = ''Brightness''\<rparr> of
                          Inl e \<Rightarrow> Inl e
                        | Inr v \<Rightarrow> Inr (env_validate ex_env ''Brightness'' v)))"
    by blast
  have a: "run_onGet ex_env ex_bound gh = Inl (missing_value ''dim'')"
    using run v by simp
  have b: "run_onGet ex_env (ex_bound\<lparr>h_device := updateCapability ''dim'' (Num 400) ex_device\<rparr>) gh
              = Inr (Num 40)"
    using run v' by (simp add: ex_percent_def ex_env_def)
  from h1 h2 h3 v r1 r2 f g a b show ?thesis by auto
qed

text \<open>
  C9. For every characteristic binding the subscription callback is wrapped with the
  interval \<open>characteristicMap.debounce || 0\<close> and is immediate exactly when the
  \<open>debounce\<close> field is falsy; the write handler, which is installed for a binding that
  is not a trigger and has a setter, is wrapped with the same interval and edge.
\<close>

theorem debounce_interval_and_edge:
  "(\<exists>l. bs_listeners (bind_characteristicMap m dev capability isTrigger svc cm bs)
            = bs_listeners bs @ [l]
        \<and> l_capability l = capability
        \<and> d_wait (l_callback l) = (if truthy (b_debounce cm) then b_debounce cm else Num 0)
        \<and> d_immediate (l_callback l) = (\<not> truthy (b_debounce cm)))
   \<and> (svc < length (a_services (bs_accessory bs)) \<and> klass \<in> set (b_characteristics cm)
        \<and> \<not> isTrigger
        \<and> nth_opt (b_set cm) (if capability \<in> set (dev_capabilities dev) then 0 else 1) = Some s
      \<longrightarrow> (\<exists>c d. find_characteristic svc klass
                    (bs_accessory (bind_characteristicMap m dev capability isTrigger svc cm bs))
                    = Some c
             \<and> c_onSet c = Some d
             \<and> sh_capability (d_fn d) = capability
             \<and> d_wait d = (if truthy (b_debounce cm) then b_debounce cm else Num 0)
             \<and> d_immediate d = (\<not> truthy (b_debounce cm))))"
proof -
  have ls: "\<exists>l. bs_listeners (bind_characteristicMap m dev capability isTrigger svc cm bs)
            = bs_listeners bs @ [l]
        \<and> l_capability l = capability
        \<and> d_wait (l_callback l) = (if truthy (b_debounce cm) then b_debounce cm else Num 0)
        \<and> d_immediate (l_callback l) = (\<not> truthy (b_debounce cm))"
  proof -
    have keep: "bs_listeners (fold (bind_characteristic m dev cap tr g st t imm sv) ks b) = bs_listeners b"
      for cap tr g st t imm sv ks b
      by (induction ks arbitrary: b)
         (simp_all add: bind_characteristic_def on_bound_def logs_def)
    show ?thesis
      by (simp add: bind_characteristicMap_def Let_def keep debounce_def)
  qed
  have hs: "\<exists>c d. find_characteristic svc klass
                    (bs_accessory (bind_characteristicMap m dev capability isTrigger svc cm bs))
                    = Some c
             \<and> c_onSet c = Some d
             \<and> sh_capability (d_fn d) = capability
             \<and> d_wait d = (if truthy (b_debounce cm) then b_debounce cm else Num 0)
             \<and> d_immediate d = (\<not> truthy (b_debounce cm))"
    if a: "svc < length (a_services (bs_accessory bs))" "klass \<in> set (b_characteristics cm)"
      and tr: "\<not> isTrigger"
      and st: "nth_opt (b_set cm) (if capability \<in> set (dev_capabilities dev) then 0 else 1) = Some s"
  proof -
    from tr have tr': "isTrigger = False" by simp
    from fold_bind_characteristic_find [OF a]
    obtain c0 where f: "find_characteristic svc klass
        (bs_accessory (bind_characteristicMap m dev capability isTrigger svc cm bs))
        = Some (install_handlers m capability False
           (nth_opt (b_get cm) (if capability \<in> set (dev_capabilities dev) then 0 else 1))
           (Some s)
           (if truthy (b_debounce cm) then b_debounce cm else Num 0)
           (\<not> truthy (b_debounce cm)) svc klass c0)"
      unfolding bind_characteristicMap_accessory st tr' by blast
    show ?thesis
      unfolding f by (simp add: install_handlers_onSet debounce_def)
  qed
  from ls hs show ?thesis by blast
qed

theorem debounce_interval_and_edge_witness:
  "Suc 0 < length (a_services (bs_accessory
       \<lparr>bs_accessory = ex_accessory, bs_listeners = [], bs_log = []\<rparr>))
   \<and> ''Brightness'' \<in> set (b_characteristics ex_dim)
   \<and> nth_opt (b_set ex_dim) (if ''dim'' \<in> set (dev_capabilities ex_device) then 0 else 1)
       = Some ex_permille
   \<and> truthy (b_debounce ex_dim) \<and> \<not> truthy (b_debounce ex_onoff)
   \<and> map (\<lambda>l. (d_wait (l_callback l), d_immediate (l_callback l)))
         (bs_listeners (bind_characteristicMap ex_map ex_device ''dim'' False 1 ex_dim
            \<lparr>bs_accessory = ex_accessory, bs_listeners = [], bs_log = []\<rparr>))
       = [(Num 300, False)]
   \<and> map (\<lambda>l. (d_wait (l_callback l), d_immediate (l_callback l)))
         (bs_listeners (bind_characteristicMap ex_map ex_device ''onoff'' False 1 ex_onoff
            \<lparr>bs_accessory = ex_accessory, bs_listeners = [], bs_log = []\<rparr>))
       = [(Num 0, True)]
   \<and> (\<exists>c d. find_characteristic 1 ''Brightness''
                  (bs_accessory (bind_characteristicMap ex_map ex_device ''dim'' False 1 ex_dim
                     \<lparr>bs_accessory = ex_accessory, bs_listeners = [], bs_log = []\<rparr>)) = Some c
          \<and> c_onSet c = Some d \<and> d_wait d = Num 300 \<and> \<not> d_immediate d)"
proof -
  let ?bs = "\<lparr>bs_accessory = ex_accessory, bs_listeners = [], bs_log = []\<rparr>"
  have h1: "Suc 0 < length (a_services (bs_accessory ?bs))"
    by (simp add: ex_accessory_eq)
  have h2: "''Brightness'' \<in> set (b_characteristics ex_dim)"
    by (simp add: ex_dim_def)
  have h3: "nth_opt (b_set ex_dim) (if ''dim'' \<in> set (dev_capabilities ex_device) then 0 else 1)
       = Some ex_permille"
    by (simp add: ex_dim_def ex_device_def)
  have t: "truthy (b_debounce ex_dim)" "\<not> truthy (b_debounce ex_onoff)"
          "b_debounce ex_dim = Num 300"
    by (simp_all add: ex_dim_def ex_onoff_def)
  from debounce_interval_and_edge
         [of ex_map ex_device "''dim''" False "Suc 0" ex_dim ?bs "''Brightness''" ex_permille]
       debounce_interval_and_edge
         [of ex_map ex_device "''onoff''" False "Suc 0" ex_onoff ?bs "''On''" ex_same]
       h1 h2 h3 t
  show ?thesis by auto
qed

text \<open>
  C7, as the code has it. When the setter yields \<open>v\<close> and the device rejects the write,
  the write handler does not raise, the request is on record as rejected, the cached
  value of the capability is \<open>v\<close>, and nothing is logged: the log is as it was.
\<close>

theorem write_rejection_suppressed:
  assumes "sh_setter sh rawValue
             \<lparr>ctx_device = h_device h, ctx_service = sh_service sh,
              ctx_capability = None, ctx_characteristic = sh_klass sh\<rparr> = Inr v"
      and "\<not> env_accepts env (sh_capability sh) v"
  shows "fst (run_onSet env sh rawValue h) = None
       \<and> cap_value (h_device (snd (run_onSet env sh rawValue h))) (sh_capability sh) = v
       \<and> h_requests (snd (run_onSet env sh rawValue h)) = h_requests h @ [(sh_capability sh, v, False)]
       \<and> h_log (snd (run_onSet env sh rawValue h)) = h_log h"
  using assms by (simp add: run_onSet_def cap_value_def updateCapability_def update_conv')

text \<open>
  C7 as stated fails where it says the failure is logged: a write of \<open>false\<close> to \<open>On\<close>
  is rejected by the device, the request is suppressed and the cached value updated, and
  the log of the handle is the same before and after.
\<close>

theorem rejected_write_leaves_log_unchanged:
  "\<not> env_accepts ex_env ''onoff'' (Bool False)
   \<and> fst (write_characteristic ex_env 1 ''On'' (Bool False) ex_bound) = None
   \<and> h_requests (snd (write_characteristic ex_env 1 ''On'' (Bool False) ex_bound))
       = [(''onoff'', Bool False, False)]
   \<and> cap_value (h_device (snd (write_characteristic ex_env 1 ''On'' (Bool False) ex_bound)))
        ''onoff'' = Bool False
   \<and> h_log (snd (write_characteristic ex_env 1 ''On'' (Bool False) ex_bound)) = h_log ex_bound"
  by (simp add: ex_bound_eq ex_accessory_eq ex_device_def ex_env_def event_defs)

theorem write_rejection_suppressed_witness:
  "sh_setter \<lparr>sh_capability = ''dim'', sh_setter = ex_permille, sh_service = 1,
              sh_klass = ''Brightness''\<rparr> (Num 75)
     \<lparr>ctx_device = h_device ex_bound, ctx_service = 1, ctx_capability = None,
      ctx_characteristic = ''Brightness''\<rparr> = Inr (Num 750)
   \<and> \<not> env_accepts ex_env ''dim'' (Num 750)
   \<and> fst (run_onSet ex_env \<lparr>sh_capability = ''dim'', sh_setter = ex_permille, sh_service = 1,
              sh_klass = ''Brightness''\<rparr> (Num 75) ex_bound) = None
   \<and> cap_value (h_device (snd (run_onSet ex_env \<lparr>sh_capability = ''dim'',
              sh_setter = ex_permille, sh_service = 1, sh_klass = ''Brightness''\<rparr>
              (Num 75) ex_bound))) ''dim'' = Num 750"
  using write_rejection_suppressed
          [of "\<lparr>sh_capability = ''dim'', sh_setter = ex_permille, sh_service = 1,
                sh_klass = ''Brightness''\<rparr>" "Num 75" ex_bound "Num 750" ex_env]
  by (simp add: ex_permille_def ex_env_def)

text \<open>
  C10. For a device that is not one of the application's own, is ready and has a
  \<open>capabilitiesObj\<close>, and for which \<open>DeviceMapper.mapDevice\<close> returns nothing,
  \<open>addDeviceToHomeKit\<close> returns \<open>false\<close> and the ledger has an entry for the device,
  with value \<open>false\<close>.
\<close>

theorem unmappable_device_recorded_false:
  assumes "\<not> isVirtualDevice (Some dev)" and "dev_ready dev" and "dev_capabilitiesObj dev \<noteq> None"
      and "ae_mapDevice env dev = None"
  shows "fst (addDeviceToHomeKit env (Some dev) a) = Bool False
       \<and> sbm_has (app_exposed (snd (addDeviceToHomeKit env (Some dev) a))) (dev_id dev)
       \<and> sbm_get (app_exposed (snd (addDeviceToHomeKit env (Some dev) a))) (dev_id dev) = Bool False"
  using assms
  by (cases "dev_capabilitiesObj dev")
     (simp_all add: addDeviceToHomeKit_def Let_def app_logs_def sbm_get_def sbm_has_def
        sbm_set_def update_conv' dom_update)

theorem unmappable_device_recorded_false_witness:
  "\<not> isVirtualDevice (Some ex_device) \<and> dev_ready ex_device
   \<and> dev_capabilitiesObj ex_device \<noteq> None
   \<and> \<not> sbm_has (new_StorageBackedMap None) ''dev-1''
   \<and> fst (addDeviceToHomeKit
             \<lparr>ae_NewDevicePublish = Undefined, ae_mapDevice = (\<lambda>d. None),
              ae_addBridgedAccessory = (\<lambda>bridged a. None)\<rparr> (Some ex_device)
             \<lparr>app_exposed = new_StorageBackedMap None, app_bridged = [], app_log = []\<rparr>)
       = Bool False
   \<and> sbm_get (app_exposed (snd (addDeviceToHomeKit
             \<lparr>ae_NewDevicePublish = Undefined, ae_mapDevice = (\<lambda>d. None),
              ae_addBridgedAccessory = (\<lambda>bridged a. None)\<rparr> (Some ex_device)
             \<lparr>app_exposed = new_StorageBackedMap None, app_bridged = [], app_log = []\<rparr>)))
        (dev_id ex_device) = Bool False"
  using unmappable_device_recorded_false
          [of ex_device "\<lparr>ae_NewDevicePublish = Undefined, ae_mapDevice = (\<lambda>d. None),
              ae_addBridgedAccessory = (\<lambda>bridged a. None)\<rparr>"
              "\<lparr>app_exposed = new_StorageBackedMap None, app_bridged = [], app_log = []\<rparr>"]
  by (simp add: isVirtualDevice_def ex_device_def new_StorageBackedMap_def object_entries_def
        sbm_has_def)

lemma update_characteristic_listeners:
  "update_characteristic env cb v (h\<lparr>h_listeners := ls\<rparr>) klass =
     (fst (update_characteristic env cb v h klass),
      (snd (update_characteristic env cb v h klass))\<lparr>h_listeners := ls\<rparr>)"
  by (simp add: update_characteristic_def split: option.splits sum.splits)

lemma for_each_update_listeners:
  "for_each (update_characteristic env cb v) ks (h\<lparr>h_listeners := ls\<rparr>) =
     (fst (for_each (update_characteristic env cb v) ks h),
      (snd (for_each (update_characteristic env cb v) ks h))\<lparr>h_listeners := ls\<rparr>)"
proof (induction ks arbitrary: h)
  case Nil
  then show ?case by simp
next
  case (Cons k ks)
  obtain r h' where st: "update_characteristic env cb v h k = (r, h')"
    by (cases "update_characteristic env cb v h k")
  then have st': "update_characteristic env cb v (h\<lparr>h_listeners := ls\<rparr>) k
                    = (r, h'\<lparr>h_listeners := ls\<rparr>)"
    by (simp add: update_characteristic_listeners)
  show ?case
    by (cases r) (simp_all add: st st' Cons.IH)
qed

lemma run_update_listeners:
  "run_update env cb v (h\<lparr>h_listeners := ls\<rparr>) =
     (fst (run_update env cb v h), (snd (run_update env cb v h))\<lparr>h_listeners := ls\<rparr>)"
proof -
  let ?h = "h\<lparr>h_log := h_log h @ [LogCapabilityUpdate (cb_capability cb) v]\<rparr>"
  obtain r h' where
    fe: "for_each (update_characteristic env cb v) (cb_characteristics cb) ?h = (r, h')"
    by (cases "for_each (update_characteristic env cb v) (cb_characteristics cb) ?h")
  have "for_each (update_characteristic env cb v) (cb_characteristics cb)
          (?h\<lparr>h_listeners := ls\<rparr>) = (r, h'\<lparr>h_listeners := ls\<rparr>)"
    by (simp only: for_each_update_listeners fe fst_conv snd_conv)
  moreover have "?h\<lparr>h_listeners := ls\<rparr> =
      h\<lparr>h_listeners := ls, h_log := h_log h @ [LogCapabilityUpdate (cb_capability cb) v]\<rparr>"
    by (cases h) simp
  ultimately have fe': "for_each (update_characteristic env cb v) (cb_characteristics cb)
      (h\<lparr>h_listeners := ls, h_log := h_log h @ [LogCapabilityUpdate (cb_capability cb) v]\<rparr>)
        = (r, h'\<lparr>h_listeners := ls\<rparr>)"
    by (simp only:)
  show ?thesis
    by (cases r) (simp_all add: run_update_def fe fe')
qed

lemma update_timer_cleanup:
  "update_timer env i (cleanup h) =
     (fst (update_timer env i h), cleanup (snd (update_timer env i h)))"
proof (cases "i < length (h_listeners h)")
  case False
  then show ?thesis by (simp add: update_timer_def cleanup_def)
next
  case True
  let ?l = "h_listeners h ! i"
  let ?d = "(l_callback ?l)\<lparr>d_pending := None\<rparr>"
  let ?ls = "(h_listeners h)[i := ?l\<lparr>l_callback := ?d\<rparr>]"
  have "(destroy ?l)\<lparr>l_callback := ?d\<rparr> = destroy (?l\<lparr>l_callback := ?d\<rparr>)"
    by (cases ?l) (simp add: destroy_def)
  then have m: "(map destroy (h_listeners h))[i := (destroy ?l)\<lparr>l_callback := ?d\<rparr>]
                  = map destroy ?ls"
    by (simp add: map_update)
  show ?thesis
  proof (cases "d_pending (l_callback ?l)")
    case None
    with True m show ?thesis
      by (simp add: update_timer_def cleanup_def debounced_timer_def Let_def destroy_def)
  next
    case (Some v)
    have l: "update_timer env i h =
               run_update env (d_fn (l_callback ?l)) v (h\<lparr>h_listeners := ?ls\<rparr>)"
      using True Some by (simp add: update_timer_def debounced_timer_def Let_def)
    have "update_timer env i (cleanup h) =
            run_update env (d_fn (l_callback ?l)) v (h\<lparr>h_listeners := map destroy ?ls\<rparr>)"
      using True Some m
      by (simp add: update_timer_def cleanup_def debounced_timer_def Let_def destroy_def)
    also have "\<dots> = (fst (run_update env (d_fn (l_callback ?l)) v h),
        (snd (run_update env (d_fn (l_callback ?l)) v h))\<lparr>h_listeners := map destroy ?ls\<rparr>)"
      by (rule run_update_listeners)
    finally have lhs: "update_timer env i (cleanup h) =
         (fst (run_update env (d_fn (l_callback ?l)) v h),
          (snd (run_update env (d_fn (l_callback ?l)) v h))\<lparr>h_listeners := map destroy ?ls\<rparr>)" .
    have r: "run_update env (d_fn (l_callback ?l)) v (h\<lparr>h_listeners := ?ls\<rparr>) =
          (fst (run_update env (d_fn (l_callback ?l)) v h),
           (snd (run_update env (d_fn (l_callback ?l)) v h))\<lparr>h_listeners := ?ls\<rparr>)"
      by (rule run_update_listeners)
    show ?thesis
      unfolding lhs l r by (simp add: cleanup_def)
  qed
qed

text \<open>
  C8, as the code has it. \<open>cleanup()\<close> calls \<open>destroy()\<close> on every subscription of the
  handle, so that the device delivers nothing more to it, and does nothing else: the
  debounce wrappers keep what they hold, a timer that was pending fires as it would have
  without \<open>cleanup()\<close>, and the accessory and the cached values are as before.
\<close>

theorem cleanup_destroys_subscriptions_only:
  "(\<forall>l\<in>set (h_listeners (cleanup h)). l_destroyed l)
   \<and> deliver env i v (cleanup h) = (None, cleanup h)
   \<and> map l_callback (h_listeners (cleanup h)) = map l_callback (h_listeners h)
   \<and> update_timer env i (cleanup h)
       = (fst (update_timer env i h), cleanup (snd (update_timer env i h)))
   \<and> h_accessory (cleanup h) = h_accessory h
   \<and> h_device (cleanup h) = h_device h"
proof -
  have 1: "\<forall>l\<in>set (h_listeners (cleanup h)). l_destroyed l"
    by (simp add: cleanup_def destroy_def)
  have 2: "deliver env i v (cleanup h) = (None, cleanup h)"
    by (auto simp: deliver_def cleanup_def destroy_def)
  have 3: "map l_callback (h_listeners (cleanup h)) = map l_callback (h_listeners h)"
    by (simp add: cleanup_def destroy_def)
  have 4: "update_timer env i (cleanup h)
       = (fst (update_timer env i h), cleanup (snd (update_timer env i h)))"
    by (rule update_timer_cleanup)
  have 5: "h_accessory (cleanup h) = h_accessory h" by (simp add: cleanup_def)
  have 6: "h_device (cleanup h) = h_device h" by (simp add: cleanup_def)
  from 1 2 3 4 5 6 show ?thesis
    by (intro conjI)
qed

text \<open>
  C8 as stated fails. The \<open>dim\<close> binding of the light is debounced by 300 ms. The device
  emits 400, which arms the timer; \<open>cleanup()\<close> destroys both subscriptions and leaves
  the timer armed; when it fires, the callback runs: the cached value of \<open>dim\<close> becomes
  400 and \<open>Brightness\<close> is updated. In the same way a write of 75 that waits for its
  timer is sent to the device after \<open>cleanup()\<close>.
\<close>

theorem pending_timer_fires_after_cleanup:
  "map l_destroyed
     (h_listeners (cleanup (snd (deliver ex_env 1 (Num 400) ex_bound)))) = [True, True]
   \<and> map (\<lambda>l. d_pending (l_callback l))
       (h_listeners (cleanup (snd (deliver ex_env 1 (Num 400) ex_bound))))
       = [None, Some (Num 400)]
   \<and> cap_value (h_device (cleanup (snd (deliver ex_env 1 (Num 400) ex_bound)))) ''dim''
       = Undefined
   \<and> cap_value (h_device (snd (update_timer ex_env 1
         (cleanup (snd (deliver ex_env 1 (Num 400) ex_bound)))))) ''dim'' = Num 400
   \<and> h_log (snd (update_timer ex_env 1
         (cleanup (snd (deliver ex_env 1 (Num 400) ex_bound)))))
       = h_log ex_bound @ [LogCapabilityUpdate ''dim'' (Num 400)]
   \<and> h_requests (snd (write_timer ex_env 1 ''Brightness''
         (cleanup (snd (write_characteristic ex_env 1 ''Brightness'' (Num 75) ex_bound)))))
       = [(''dim'', Num 750, False)]"
  by (simp add: ex_bound_eq ex_accessory_eq ex_device_def ex_env_def event_defs)

theorem cleanup_destroys_subscriptions_only_witness:
  "l_destroyed (h_listeners (cleanup ex_bound) ! 0)
   \<and> l_destroyed (h_listeners (cleanup ex_bound) ! 1)
   \<and> deliver ex_env 0 (Bool False) (cleanup ex_bound) = (None, cleanup ex_bound)
   \<and> cap_value (h_device (snd (deliver ex_env 0 (Bool False) ex_bound))) ''onoff'' = Bool False
   \<and> cap_value (h_device (snd (deliver ex_env 0 (Bool False) (cleanup ex_bound)))) ''onoff''
       = Bool True"
  using cleanup_destroys_subscriptions_only [of ex_bound ex_env 0 "Bool False"]
  by (simp add: ex_bound_eq ex_accessory_eq ex_device_def ex_env_def event_defs)


end
